theory Spec2Isabelle
  imports Complex_Main "HOL-Library.Multiset"
begin

section \<open>JavaScript values used by the memory vault\<close>

text \<open>
  This theory embeds the memory vault of \<^verbatim>\<open>backend/server.js\<close>: the relevance score of
  \<^verbatim>\<open>MemoryManager\<close> and the handlers that create, list and search memories, over the
  in-memory store \<^verbatim>\<open>db\<close>. Authentication, rate limiting, logging and the access log are
  outside it: a handler is given the identifier of the authenticated user.

  The backend computes with JavaScript numbers and strings. Numbers are modelled as exact
  rationals together with \<^verbatim>\<open>NaN\<close>, the only non-finite value the scoring code can
  produce (from \<^verbatim>\<open>0 / 0\<close>); rounding of IEEE doubles is not modelled. Strings are
  character lists and \<^verbatim>\<open>toLowerCase\<close> acts on the ASCII letters.
\<close>

datatype number = Num rat | NaN

fun num_add :: "number \<Rightarrow> number \<Rightarrow> number" where
  "num_add (Num a) (Num b) = Num (a + b)"
| "num_add _ _ = NaN"

fun num_sub :: "number \<Rightarrow> number \<Rightarrow> number" where
  "num_sub (Num a) (Num b) = Num (a - b)"
| "num_sub _ _ = NaN"

fun num_mul :: "number \<Rightarrow> number \<Rightarrow> number" where
  "num_mul (Num a) (Num b) = Num (a * b)"
| "num_mul _ _ = NaN"

text \<open>\<^verbatim>\<open>Math.min\<close>: the result is \<^verbatim>\<open>NaN\<close> as soon as one argument is.\<close>

fun num_min :: "number \<Rightarrow> number \<Rightarrow> number" where
  "num_min (Num a) (Num b) = Num (min a b)"
| "num_min _ _ = NaN"

text \<open>The comparison \<^verbatim>\<open>a > b\<close>: false whenever an operand is \<^verbatim>\<open>NaN\<close>.\<close>

fun num_gt :: "number \<Rightarrow> number \<Rightarrow> bool" where
  "num_gt (Num a) (Num b) = (b < a)"
| "num_gt _ _ = False"

text \<open>
  The quotient \<^verbatim>\<open>matches / contextKeywords.length\<close> of two array lengths. The dividend
  counts elements filtered out of the array whose length is the divisor, so a zero divisor
  only ever meets a zero dividend, and \<^verbatim>\<open>0 / 0\<close> is \<^verbatim>\<open>NaN\<close>.
\<close>

definition num_div_counts :: "nat \<Rightarrow> nat \<Rightarrow> number" where
  "num_div_counts m n = (if n = 0 then NaN else Num (of_nat m / of_nat n))"

definition toLowerCase_char :: "char \<Rightarrow> char" where
  "toLowerCase_char c =
     (case map_of (zip ''ABCDEFGHIJKLMNOPQRSTUVWXYZ'' ''abcdefghijklmnopqrstuvwxyz'') c of
        None \<Rightarrow> c
      | Some l \<Rightarrow> l)"

definition toLowerCase :: "string \<Rightarrow> string" where
  "toLowerCase s = map toLowerCase_char s"

fun startsWith :: "string \<Rightarrow> string \<Rightarrow> bool" where
  "startsWith s [] = True"
| "startsWith [] (k # ks) = False"
| "startsWith (c # cs) (k # ks) = (c = k \<and> startsWith cs ks)"

text \<open>\<^verbatim>\<open>text.includes(k)\<close>: \<open>k\<close> occurs in \<open>text\<close> as a contiguous substring.\<close>

fun includes_str :: "string \<Rightarrow> string \<Rightarrow> bool" where
  "includes_str [] k = (k = [])"
| "includes_str (c # cs) k = (startsWith (c # cs) k \<or> includes_str cs k)"

text \<open>\<^verbatim>\<open>parts.join(sep)\<close>.\<close>

fun join :: "string \<Rightarrow> string list \<Rightarrow> string" where
  "join sep [] = []"
| "join sep [x] = x"
| "join sep (x # y # ys) = x @ sep @ join sep (y # ys)"

text \<open>
  \<^verbatim>\<open>s.split(sep)\<close> for a one-character separator: every occurrence of the separator ends
  a piece, so the empty string gives one empty piece and adjacent separators give empty pieces.
\<close>

fun split :: "char \<Rightarrow> string \<Rightarrow> string list" where
  "split sep [] = [[]]"
| "split sep (c # cs) =
     (if c = sep then [] # split sep cs
      else (case split sep cs of [] \<Rightarrow> [[c]] | w # ws \<Rightarrow> (c # w) # ws))"

text \<open>
  \<^verbatim>\<open>xs.slice(start, end)\<close>: a negative index counts from the end of the array, and both
  indices are clamped to the array.
\<close>

definition slice :: "int \<Rightarrow> int \<Rightarrow> 'a list \<Rightarrow> 'a list" where
  "slice start fin xs =
     (let len = int (length xs);
          k = (if start < 0 then max (len + start) 0 else min start len);
          final = (if fin < 0 then max (len + fin) 0 else min fin len)
      in take (nat (final - k)) (drop (nat k) xs))"

text \<open>
  \<^verbatim>\<open>xs.sort(cmp)\<close>: the sort is stable (ECMAScript 2019), an element \<open>x\<close> stays in
  front of a later element \<open>y\<close> unless \<open>cmp x y\<close> is positive, and a comparator result
  \<^verbatim>\<open>NaN\<close> counts as zero.
\<close>

fun cmp_positive :: "number \<Rightarrow> bool" where
  "cmp_positive (Num v) = (0 < v)"
| "cmp_positive NaN = False"

fun insert_cmp :: "('a \<Rightarrow> 'a \<Rightarrow> number) \<Rightarrow> 'a \<Rightarrow> 'a list \<Rightarrow> 'a list" where
  "insert_cmp cmp x [] = [x]"
| "insert_cmp cmp x (y # ys) =
     (if cmp_positive (cmp x y) then y # insert_cmp cmp x ys else x # y # ys)"

definition sort_cmp :: "('a \<Rightarrow> 'a \<Rightarrow> number) \<Rightarrow> 'a list \<Rightarrow> 'a list" where
  "sort_cmp cmp xs = foldr (insert_cmp cmp) xs []"

section \<open>The data model\<close>

text \<open>
  The objects the handlers build. A memory is stored with its ciphertext only: the handler
  that creates memories sets no \<^verbatim>\<open>content\<close> property, so the field \<open>content\<close> below, which
  the scoring function reads, is \<open>None\<close> (\<^verbatim>\<open>undefined\<close>) on every stored memory.
  Timestamps are milliseconds since the epoch (the ISO string of the source carries exactly
  that). Request bodies have the documented shapes: tags and keywords are arrays of strings.
\<close>

record entities =
  people :: "string list"
  organizations :: "string list"
  locations :: "string list"
  dates :: "string list"
  topics :: "string list"
  emails :: "string list"
  urls :: "string list"

record metadata =
  allowedServices :: "string list option"

record permissions =
  aiServices :: "string list"
  shareLevel :: string

record memory =
  id_m :: string
  userId :: string
  encryptedContent :: string
  content :: "string option"
  type_m :: string
  source :: string
  tags :: "string list"
  entities_m :: entities
  metadata_m :: metadata
  timestamp :: int
  accessCount :: nat
  relevanceScore :: number
  permissions_m :: permissions

record preferences =
  privacyLevel :: string
  dataRetention :: string
  crossPlatformSync :: bool

record stats =
  totalMemories :: nat
  totalInteractions :: nat
  connectedServices :: nat

record user =
  id_u :: string
  email :: string
  name :: string
  passwordHash :: string
  publicKey :: string
  privateKey :: string
  createdAt :: int
  preferences_u :: preferences
  stats_u :: stats

text \<open>
  The scoring context: \<open>keywords_c\<close> (the property \<^verbatim>\<open>keywords\<close>) is \<open>None\<close> when the
  property is absent; any further properties the caller sends are carried along and never
  read.
\<close>

record scoring_context =
  keywords_c :: "string list option"
  extra :: "(string \<times> string) list"

section \<open>Relevance scoring\<close>

text \<open>
  \<^verbatim>\<open>memory.content + ' ' + (memory.tags || []).join(' ')\<close>: string concatenation turns an
  absent \<^verbatim>\<open>content\<close> into the text \<^verbatim>\<open>undefined\<close>.
\<close>

definition memoryText_of :: "memory \<Rightarrow> string" where
  "memoryText_of memory =
     toLowerCase ((case content memory of None \<Rightarrow> ''undefined'' | Some c \<Rightarrow> c)
                  @ '' '' @ join '' '' (tags memory))"

text \<open>
  The context-similarity summand of \<^verbatim>\<open>MemoryManager.calculateRelevanceScore\<close>, taken when
  \<^verbatim>\<open>context.keywords\<close> is truthy; every array, the empty one too, is truthy.
\<close>

definition contextTerm :: "memory \<Rightarrow> string list \<Rightarrow> number" where
  "contextTerm memory ks =
     (let memoryText = memoryText_of memory;
          contextKeywords = map toLowerCase ks;
          matches = length (filter (\<lambda>k. includes_str memoryText k) contextKeywords)
      in num_mul (num_div_counts matches (length contextKeywords)) (Num 5))"

text \<open>
  \<^verbatim>\<open>MemoryManager.calculateRelevanceScore(memory, context)\<close>; \<open>now\<close> is the value of
  \<^verbatim>\<open>Date.now()\<close>, in milliseconds.
\<close>

definition calculateRelevanceScore :: "int \<Rightarrow> memory \<Rightarrow> scoring_context \<Rightarrow> number" where
  "calculateRelevanceScore now memory ctx =
     (let score = Num 0;
          daysSince = of_int (now - timestamp memory) / (1000 * 60 * 60 * 24);
          score = num_add score (Num (max 0 (10 - daysSince) * (1 / 10)));
          score = num_add score (Num (of_nat (accessCount memory) * (1 / 20)));
          score = (case keywords_c ctx of
                     None \<Rightarrow> score
                   | Some ks \<Rightarrow> num_add score (contextTerm memory ks))
      in num_min score (Num 10))"

section \<open>The store\<close>

text \<open>
  \<^verbatim>\<open>db.users\<close> and \<^verbatim>\<open>db.memories\<close> are JavaScript \<^verbatim>\<open>Map\<close>s: association lists in
  insertion order. A \<^verbatim>\<open>Map\<close> holds its memory objects by reference and the search handler
  copies and mutates memory objects, so memory objects live in a heap (a list indexed by
  reference) and \<^verbatim>\<open>db.memories\<close> holds references. Objects that nothing refers to any more
  stay in the heap as garbage. The maps \<^verbatim>\<open>db.sessions\<close> and \<^verbatim>\<open>db.aiServices\<close>, which
  no handler writes, are left out.
\<close>

type_synonym ref = nat

record db =
  users :: "(string \<times> user) list"
  memories :: "(string \<times> ref) list"
  heap :: "memory list"

text \<open>\<^verbatim>\<open>map.set(k, v)\<close>: an existing key keeps its position, a new key goes last.\<close>

fun map_set :: "'k \<Rightarrow> 'v \<Rightarrow> ('k \<times> 'v) list \<Rightarrow> ('k \<times> 'v) list" where
  "map_set k v [] = [(k, v)]"
| "map_set k v ((k', v') # kvs) =
     (if k' = k then (k, v) # kvs else (k', v') # map_set k v kvs)"

text \<open>\<^verbatim>\<open>[...map.values()]\<close>.\<close>

definition map_values :: "('k \<times> 'v) list \<Rightarrow> 'v list" where
  "map_values kvs = map snd kvs"

text \<open>\<^verbatim>\<open>[...db.users.values()].find(u => u.id === userId)\<close>.\<close>

definition findUser :: "db \<Rightarrow> string \<Rightarrow> user option" where
  "findUser d uid = find (\<lambda>u. id_u u = uid) (map_values (users d))"

text \<open>\<^verbatim>\<open>[...db.memories.values()].filter(m => m.userId === userId)\<close>, as references.\<close>

definition ownedRefs :: "db \<Rightarrow> string \<Rightarrow> ref list" where
  "ownedRefs d uid = filter (\<lambda>r. userId (heap d ! r) = uid) (map_values (memories d))"

text \<open>
  The library calls the handlers make are parameters: the two RSA wrappers of
  \<^verbatim>\<open>EncryptionManager\<close> (\<open>None\<close> when the call throws) and the regular-expression matcher
  \<^verbatim>\<open>text.match(pattern) || []\<close> behind \<^verbatim>\<open>MemoryManager.extractEntities\<close>.
\<close>

datatype pattern = EmailPattern | UrlPattern | DatePattern

record env =
  encryptData :: "string \<Rightarrow> string \<Rightarrow> string option"
  decryptData :: "string \<Rightarrow> string \<Rightarrow> string option"
  matchAll :: "pattern \<Rightarrow> string \<Rightarrow> string list"

definition extractEntities :: "env \<Rightarrow> string \<Rightarrow> entities" where
  "extractEntities e text =
     \<lparr>people = [], organizations = [], locations = [],
      dates = matchAll e DatePattern text, topics = [],
      emails = matchAll e EmailPattern text,
      urls = matchAll e UrlPattern text\<rparr>"

text \<open>
  A default for an absent property: the destructuring \<^verbatim>\<open>{ x = dflt }\<close> and the
  idiom \<^verbatim>\<open>x || dflt\<close> on a property that is an array or absent.
\<close>

fun orDefault :: "'a \<Rightarrow> 'a option \<Rightarrow> 'a" where
  "orDefault dflt None = dflt"
| "orDefault dflt (Some v) = v"

text \<open>The HTTP outcomes other than success: status 400, 404 and 500.\<close>

datatype error = BadRequest | NotFound | InternalServerError

section \<open>Creating a memory\<close>

record create_body =
  body_content :: string
  body_type :: string
  body_source :: string
  body_tags :: "string list option"
  body_metadata :: "metadata option"

record create_response =
  c_id :: string
  c_type :: string
  c_source :: string
  c_tags :: "string list"
  c_entities :: entities
  c_timestamp :: int
  c_message :: string

definition validTypes :: "string list" where
  "validTypes = [''conversation'', ''document'', ''note'', ''insight'']"

text \<open>\<^verbatim>\<open>user.stats.totalMemories++\<close> on the user object that \<^verbatim>\<open>find\<close> returned.\<close>

fun countMemory :: "string \<Rightarrow> (string \<times> user) list \<Rightarrow> (string \<times> user) list" where
  "countMemory uid [] = []"
| "countMemory uid ((k, u) # kus) =
     (if id_u u = uid
      then (k, u\<lparr>stats_u := (stats_u u)\<lparr>totalMemories := totalMemories (stats_u u) + 1\<rparr>\<rparr>) # kus
      else (k, u) # countMemory uid kus)"

text \<open>
  The handler of \<^verbatim>\<open>POST /api/memories\<close> for the authenticated user \<open>reqUserId\<close>;
  \<open>memoryId\<close> is the identifier \<^verbatim>\<open>crypto.randomUUID()\<close> returns and \<open>now\<close> the time of
  the request.
\<close>

definition createMemory ::
  "env \<Rightarrow> int \<Rightarrow> string \<Rightarrow> string \<Rightarrow> create_body \<Rightarrow> db \<Rightarrow> (error + create_response) \<times> db" where
  "createMemory e now memoryId reqUserId body d =
     (if body_content body = [] \<or> body_type body \<notin> set validTypes \<or> body_source body = []
      then (Inl BadRequest, d)
      else
        let tags0 = orDefault [] (body_tags body);
            metadata0 = orDefault \<lparr>allowedServices = None\<rparr> (body_metadata body)
        in case findUser d reqUserId of
             None \<Rightarrow> (Inl NotFound, d)
           | Some user0 \<Rightarrow>
               let ents = extractEntities e (body_content body)
               in (case encryptData e (body_content body) (publicKey user0) of
                    None \<Rightarrow> (Inl InternalServerError, d)
                  | Some encrypted \<Rightarrow>
                      let memory0 =
                            \<lparr>id_m = memoryId, userId = id_u user0,
                             encryptedContent = encrypted, content = None,
                             type_m = body_type body, source = body_source body,
                             tags = tags0, entities_m = ents, metadata_m = metadata0,
                             timestamp = now, accessCount = 0, relevanceScore = Num 1,
                             permissions_m =
                               \<lparr>aiServices = orDefault [] (allowedServices metadata0),
                                shareLevel = ''private''\<rparr>\<rparr>;
                          r = length (heap d)
                      in (Inr \<lparr>c_id = memoryId, c_type = body_type body,
                               c_source = body_source body, c_tags = tags0,
                               c_entities = ents, c_timestamp = timestamp memory0,
                               c_message = ''Memory stored successfully''\<rparr>,
                          d\<lparr>heap := heap d @ [memory0],
                            memories := map_set memoryId r (memories d),
                            users := countMemory reqUserId (users d)\<rparr>)))"

section \<open>Listing memories\<close>

text \<open>
  The query parameters of \<^verbatim>\<open>GET /api/memories\<close> arrive as strings. \<open>q_limit\<close> and
  \<open>q_offset\<close> are strings of decimal digits, given by their value; \<open>None\<close> is an absent
  parameter.
\<close>

record list_query =
  q_limit :: "nat option"
  q_offset :: "nat option"
  q_type :: "string option"
  q_source :: "string option"
  q_tags :: "string option"

record summary =
  l_id :: string
  l_type :: string
  l_source :: string
  l_tags :: "string list"
  l_entities :: entities
  l_timestamp :: int
  l_accessCount :: nat
  l_relevanceScore :: number

record list_response =
  memories_l :: "summary list"
  total_l :: nat
  limit_l :: nat
  offset_l :: nat

text \<open>\<^verbatim>\<open>if (param) xs = f(param, xs)\<close>: an absent or empty string is falsy.\<close>

fun whenGiven :: "string option \<Rightarrow> (string \<Rightarrow> 'a \<Rightarrow> 'a) \<Rightarrow> 'a \<Rightarrow> 'a" where
  "whenGiven None f x = x"
| "whenGiven (Some p) f x = (if p = [] then x else f p x)"

definition applyFilters :: "list_query \<Rightarrow> memory list \<Rightarrow> memory list" where
  "applyFilters q ms =
     (let ms = whenGiven (q_type q) (\<lambda>t. filter (\<lambda>m. type_m m = t)) ms;
          ms = whenGiven (q_source q) (\<lambda>s. filter (\<lambda>m. source m = s)) ms;
          ms = whenGiven (q_tags q)
                 (\<lambda>ts. let tagList = split (CHR '','') ts
                       in filter (\<lambda>m. \<exists>tag \<in> set tagList. tag \<in> set (tags m))) ms
      in ms)"

text \<open>\<^verbatim>\<open>(a, b) => new Date(b.timestamp) - new Date(a.timestamp)\<close>.\<close>

definition byTimestampDesc :: "memory \<Rightarrow> memory \<Rightarrow> number" where
  "byTimestampDesc a b = Num (of_int (timestamp b - timestamp a))"

function ndigits :: "nat \<Rightarrow> nat" where
  "ndigits n = (if n < 10 then 1 else Suc (ndigits (n div 10)))"
  by pat_completeness auto
termination
  by (relation "measure id") auto

text \<open>
  \<^verbatim>\<open>offset + parseInt(limit)\<close>: the default offset is the number 0 and the sum is a sum;
  an offset from the query string is a string, so \<^verbatim>\<open>+\<close> appends the digits of the limit
  to it, and \<^verbatim>\<open>slice\<close> reads the result as a number.
\<close>

fun sliceEnd :: "nat option \<Rightarrow> nat \<Rightarrow> nat" where
  "sliceEnd None n = 0 + n"
| "sliceEnd (Some off) n = off * 10 ^ ndigits n + n"

definition toSummary :: "memory \<Rightarrow> summary" where
  "toSummary m =
     \<lparr>l_id = id_m m, l_type = type_m m, l_source = source m, l_tags = tags m,
      l_entities = entities_m m, l_timestamp = timestamp m,
      l_accessCount = accessCount m, l_relevanceScore = relevanceScore m\<rparr>"

text \<open>The records of the requesting user that pass the filters, in store order.\<close>

definition filteredMemories :: "string \<Rightarrow> list_query \<Rightarrow> db \<Rightarrow> memory list" where
  "filteredMemories reqUserId q d =
     applyFilters q (map (\<lambda>r. heap d ! r) (ownedRefs d reqUserId))"

text \<open>The handler of \<^verbatim>\<open>GET /api/memories\<close>; it changes nothing in the store.\<close>

definition listMemories :: "string \<Rightarrow> list_query \<Rightarrow> db \<Rightarrow> list_response" where
  "listMemories reqUserId q d =
     (let limit0 = orDefault 50 (q_limit q);
          offset0 = orDefault 0 (q_offset q);
          ms = sort_cmp byTimestampDesc (filteredMemories reqUserId q d);
          paginatedMemories = slice (int offset0) (int (sliceEnd (q_offset q) limit0)) ms
      in \<lparr>memories_l = map toSummary paginatedMemories, total_l = length ms,
          limit_l = limit0, offset_l = offset0\<rparr>)"

section \<open>Searching memories\<close>

record search_body =
  s_query :: string
  s_context :: "scoring_context option"
  s_limit :: "int option"

record search_result =
  r_id :: string
  r_content :: string
  r_type :: string
  r_source :: string
  r_tags :: "string list"
  r_entities :: entities
  r_timestamp :: int
  r_relevanceScore :: number

record search_response =
  query_s :: string
  results :: "search_result list"
  totalFound :: nat

text \<open>
  \<^verbatim>\<open>{ keywords: query.toLowerCase().split(' '), ...context }\<close>: the spread comes last, so
  a \<^verbatim>\<open>keywords\<close> property of the caller's context replaces the one built from the query.
\<close>

definition searchContext :: "string \<Rightarrow> scoring_context \<Rightarrow> scoring_context" where
  "searchContext query ctx =
     \<lparr>keywords_c = (case keywords_c ctx of
                      None \<Rightarrow> Some (split (CHR '' '') (toLowerCase query))
                    | Some ks \<Rightarrow> Some ks),
      extra = extra ctx\<rparr>"

text \<open>
  \<^verbatim>\<open>memories.map(m => ({ ...m, relevanceScore: score(m) }))\<close>: every element is a new
  object, a copy of the stored one with the score replaced; the stored object is not written.
\<close>

fun spreadCopies :: "(memory \<Rightarrow> number) \<Rightarrow> ref list \<Rightarrow> memory list \<Rightarrow> ref list \<times> memory list" where
  "spreadCopies score [] h = ([], h)"
| "spreadCopies score (r # rs) h =
     (let copy = (h ! r)\<lparr>relevanceScore := score (h ! r)\<rparr>;
          (rs', h') = spreadCopies score rs (h @ [copy])
      in (length h # rs', h'))"

text \<open>\<^verbatim>\<open>(a, b) => b.relevanceScore - a.relevanceScore\<close>, on references.\<close>

definition byScoreDesc :: "memory list \<Rightarrow> ref \<Rightarrow> ref \<Rightarrow> number" where
  "byScoreDesc h a b = num_sub (relevanceScore (h ! b)) (relevanceScore (h ! a))"

definition relevantMemories :: "memory list \<Rightarrow> int \<Rightarrow> ref list \<Rightarrow> ref list" where
  "relevantMemories h limit0 ms =
     slice 0 limit0
       (sort_cmp (byScoreDesc h)
          (filter (\<lambda>r. num_gt (relevanceScore (h ! r)) (Num (1 / 2))) ms))"

definition toResult :: "memory \<Rightarrow> string \<Rightarrow> search_result" where
  "toResult m decryptedContent =
     \<lparr>r_id = id_m m, r_content = decryptedContent, r_type = type_m m,
      r_source = source m, r_tags = tags m, r_entities = entities_m m,
      r_timestamp = timestamp m, r_relevanceScore = relevanceScore m\<rparr>"

text \<open>
  The body of \<^verbatim>\<open>relevantMemories.map(m => { try { ... } catch (err) { return null; } })\<close>:
  a decryption that throws gives \<^verbatim>\<open>null\<close> for that element; one that succeeds writes
  \<^verbatim>\<open>m.accessCount\<close> on the object \<open>m\<close> refers to and gives the result object.
\<close>

fun decryptEach ::
  "(string \<Rightarrow> string \<Rightarrow> string option) \<Rightarrow> string \<Rightarrow> ref list \<Rightarrow> memory list
     \<Rightarrow> search_result option list \<times> memory list" where
  "decryptEach dec key [] h = ([], h)"
| "decryptEach dec key (r # rs) h =
     (case dec (encryptedContent (h ! r)) key of
        None \<Rightarrow> (let (res, h') = decryptEach dec key rs h in (None # res, h'))
      | Some decryptedContent \<Rightarrow>
          (let h1 = h[r := (h ! r)\<lparr>accessCount := accessCount (h ! r) + 1\<rparr>];
               (res, h') = decryptEach dec key rs h1
           in (Some (toResult (h1 ! r) decryptedContent) # res, h')))"

text \<open>\<^verbatim>\<open>.filter(Boolean)\<close> on an array of objects and \<^verbatim>\<open>null\<close>s.\<close>

fun compact :: "'a option list \<Rightarrow> 'a list" where
  "compact [] = []"
| "compact (None # xs) = compact xs"
| "compact (Some x # xs) = x # compact xs"

text \<open>
  The handler of \<^verbatim>\<open>POST /api/memories/search\<close> for the authenticated user
  \<open>reqUserId\<close>; \<open>now\<close> is the time of the request (the clock is taken not to advance
  while one request scores its memories).
\<close>

definition search ::
  "env \<Rightarrow> int \<Rightarrow> string \<Rightarrow> search_body \<Rightarrow> db \<Rightarrow> (error + search_response) \<times> db" where
  "search e now reqUserId body d =
     (if s_query body = [] then (Inl BadRequest, d)
      else
        let ctx = orDefault \<lparr>keywords_c = None, extra = []\<rparr> (s_context body);
            limit0 = orDefault 20 (s_limit body)
        in case findUser d reqUserId of
             None \<Rightarrow> (Inl NotFound, d)
           | Some user0 \<Rightarrow>
               let sc = searchContext (s_query body) ctx;
                   (ms, h1) = spreadCopies (\<lambda>m. calculateRelevanceScore now m sc)
                                (ownedRefs d reqUserId) (heap d);
                   (res, h2) = decryptEach (decryptData e) (privateKey user0)
                                 (relevantMemories h1 limit0 ms) h1;
                   results0 = compact res
               in (Inr \<lparr>query_s = s_query body, results = results0,
                        totalFound = length results0\<rparr>,
                   d\<lparr>heap := h2\<rparr>))"

section \<open>Views of a search and of the store used in the statements\<close>

text \<open>The context a search request is scored against.\<close>

definition requestContext :: "search_body \<Rightarrow> scoring_context" where
  "requestContext body =
     searchContext (s_query body) (orDefault \<lparr>keywords_c = None, extra = []\<rparr> (s_context body))"

text \<open>
  The same pipeline on values instead of references: the scored copies of the requesting
  user's records, the copies a search selects, and the outcome of the \<^verbatim>\<open>try\<close> block on
  one selected copy.
\<close>

definition scoredRecords :: "int \<Rightarrow> string \<Rightarrow> search_body \<Rightarrow> db \<Rightarrow> memory list" where
  "scoredRecords now reqUserId body d =
     map (\<lambda>r. (heap d ! r)
                 \<lparr>relevanceScore := calculateRelevanceScore now (heap d ! r) (requestContext body)\<rparr>)
       (ownedRefs d reqUserId)"

definition byScoreDescV :: "memory \<Rightarrow> memory \<Rightarrow> number" where
  "byScoreDescV a b = num_sub (relevanceScore b) (relevanceScore a)"

definition selectedRecords :: "int \<Rightarrow> string \<Rightarrow> search_body \<Rightarrow> db \<Rightarrow> memory list" where
  "selectedRecords now reqUserId body d =
     slice 0 (orDefault 20 (s_limit body))
       (sort_cmp byScoreDescV
          (filter (\<lambda>m. num_gt (relevanceScore m) (Num (1 / 2)))
             (scoredRecords now reqUserId body d)))"

definition attempt ::
  "(string \<Rightarrow> string \<Rightarrow> string option) \<Rightarrow> string \<Rightarrow> memory \<Rightarrow> search_result option" where
  "attempt dec key m = map_option (toResult m) (dec (encryptedContent m) key)"

text \<open>The results array of a search response; empty when the request is refused.\<close>

definition searchResults :: "env \<Rightarrow> int \<Rightarrow> string \<Rightarrow> search_body \<Rightarrow> db \<Rightarrow> search_result list" where
  "searchResults e now reqUserId body d =
     (case fst (search e now reqUserId body d) of Inl err \<Rightarrow> [] | Inr resp \<Rightarrow> results resp)"

text \<open>The memory objects that \<^verbatim>\<open>db.memories\<close> holds, in insertion order.\<close>

definition storedMemories :: "db \<Rightarrow> memory list" where
  "storedMemories d = map (\<lambda>r. heap d ! r) (map_values (memories d))"

text \<open>
  Well-formedness of a store: the keys of \<^verbatim>\<open>db.memories\<close> are distinct (it is a
  \<^verbatim>\<open>Map\<close>), every reference in it points into the heap, and every memory is stored under
  its own identifier.
\<close>

definition wf_db :: "db \<Rightarrow> bool" where
  "wf_db d \<longleftrightarrow>
     distinct (map fst (memories d)) \<and>
     (\<forall>(k, r) \<in> set (memories d). r < length (heap d) \<and> id_m (heap d ! r) = k)"

text \<open>
  Runs of the vault: any sequence of create, list and search requests, starting from a store
  with registered users and no memories.
\<close>

datatype operation =
  Create int string string create_body
| List string list_query
| Search int string search_body

fun perform :: "env \<Rightarrow> operation \<Rightarrow> db \<Rightarrow> db" where
  "perform e (Create now memoryId reqUserId body) d = snd (createMemory e now memoryId reqUserId body d)"
| "perform e (List reqUserId q) d = d"
| "perform e (Search now reqUserId body) d = snd (search e now reqUserId body d)"

definition run :: "env \<Rightarrow> operation list \<Rightarrow> db \<Rightarrow> db" where
  "run e ops d = foldl (\<lambda>d' op. perform e op d') d ops"

definition emptyStore :: "(string \<times> user) list \<Rightarrow> db" where
  "emptyStore us = \<lparr>users = us, memories = [], heap = []\<rparr>"

text \<open>
  How a filter parameter of the list request reads on one record: an absent or empty
  parameter lets every record pass.
\<close>

fun passes :: "string option \<Rightarrow> (string \<Rightarrow> bool) \<Rightarrow> bool" where
  "passes None P = True"
| "passes (Some p) P = (p = [] \<or> P p)"

section \<open>A sample vault\<close>

text \<open>
  Two registered users and a toy cipher: encryption prefixes the plaintext with the number of
  the key pair, decryption with the matching private key strips it and fails on anything else.
\<close>

definition alice :: user where
  "alice =
     \<lparr>id_u = ''u1'', email = ''alice@example.org'', name = ''Alice'', passwordHash = ''h1'',
      publicKey = ''pub1'', privateKey = ''priv1'', createdAt = 0,
      preferences_u = \<lparr>privacyLevel = ''high'', dataRetention = ''1year'',
                        crossPlatformSync = True\<rparr>,
      stats_u = \<lparr>totalMemories = 0, totalInteractions = 0, connectedServices = 0\<rparr>\<rparr>"

definition bob :: user where
  "bob = alice\<lparr>id_u := ''u2'', email := ''bob@example.org'', name := ''Bob'',
               passwordHash := ''h2'', publicKey := ''pub2'', privateKey := ''priv2''\<rparr>"

definition toyEnv :: env where
  "toyEnv =
     \<lparr>encryptData = (\<lambda>data key.
        if key = ''pub1'' then Some (''1:'' @ data)
        else if key = ''pub2'' then Some (''2:'' @ data) else None),
      decryptData = (\<lambda>blob key.
        if key = ''priv1'' \<and> take 2 blob = ''1:'' then Some (drop 2 blob)
        else if key = ''priv2'' \<and> take 2 blob = ''2:'' then Some (drop 2 blob) else None),
      matchAll = (\<lambda>p text. [])\<rparr>"

text \<open>The same cipher with one blob that can no longer be decrypted.\<close>

definition brokenEnv :: env where
  "brokenEnv =
     toyEnv\<lparr>decryptData := (\<lambda>blob key.
        if blob = ''1:Birthday reminder'' then None else decryptData toyEnv blob key)\<rparr>"

definition noteBody :: "string \<Rightarrow> string list \<Rightarrow> create_body" where
  "noteBody text ts =
     \<lparr>body_content = text, body_type = ''note'', body_source = ''test'',
      body_tags = Some ts, body_metadata = None\<rparr>"

definition noFilter :: list_query where
  "noFilter = \<lparr>q_limit = None, q_offset = None, q_type = None, q_source = None, q_tags = None\<rparr>"

definition budgetQuery :: search_body where
  "budgetQuery = \<lparr>s_query = ''budget'', s_context = None, s_limit = None\<rparr>"

text \<open>
  Alice stores three notes, the last two in the same millisecond; Bob stores one. The clock
  is in milliseconds: the second note is one day younger than the first.
\<close>

definition sampleOps :: "operation list" where
  "sampleOps =
     [Create 1000 ''m1'' ''u1'' (noteBody ''Meeting about budget'' [''budget'']),
      Create 86401000 ''m2'' ''u1'' (noteBody ''Birthday reminder'' [''family'']),
      Create 86401000 ''m3'' ''u2'' (noteBody ''Budget of the club'' [''budget'']),
      Create 86401000 ''m4'' ''u1'' (noteBody ''Budget follow-up'' [''budget'', ''todo''])]"

definition sampleUsers :: "(string \<times> user) list" where
  "sampleUsers = [(''alice@example.org'', alice), (''bob@example.org'', bob)]"

text \<open>The store these requests lead to (\<open>sampleStore_run\<close> below).\<close>

definition sampleMemory :: "string \<Rightarrow> string \<Rightarrow> string \<Rightarrow> string list \<Rightarrow> int \<Rightarrow> memory" where
  "sampleMemory mid uid blob ts t =
     \<lparr>id_m = mid, userId = uid, encryptedContent = blob, content = None,
      type_m = ''note'', source = ''test'', tags = ts,
      entities_m = \<lparr>people = [], organizations = [], locations = [], dates = [],
                     topics = [], emails = [], urls = []\<rparr>,
      metadata_m = \<lparr>allowedServices = None\<rparr>, timestamp = t, accessCount = 0,
      relevanceScore = Num 1,
      permissions_m = \<lparr>aiServices = [], shareLevel = ''private''\<rparr>\<rparr>"

definition aliceStored :: user where
  "aliceStored = alice\<lparr>stats_u := (stats_u alice)\<lparr>totalMemories := 3\<rparr>\<rparr>"

definition bobStored :: user where
  "bobStored = bob\<lparr>stats_u := (stats_u bob)\<lparr>totalMemories := 1\<rparr>\<rparr>"

definition sampleStore :: db where
  "sampleStore =
     \<lparr>users = [(''alice@example.org'', aliceStored), (''bob@example.org'', bobStored)],
      memories = [(''m1'', 0), (''m2'', 1), (''m3'', 2), (''m4'', 3)],
      heap = [sampleMemory ''m1'' ''u1'' ''1:Meeting about budget'' [''budget''] 1000,
              sampleMemory ''m2'' ''u1'' ''1:Birthday reminder'' [''family''] 86401000,
              sampleMemory ''m3'' ''u2'' ''2:Budget of the club'' [''budget''] 86401000,
              sampleMemory ''m4'' ''u1'' ''1:Budget follow-up'' [''budget'', ''todo''] 86401000]\<rparr>"

text \<open>A second query, which no tag of Alice's budget notes matches.\<close>

definition familyQuery :: search_body where
  "familyQuery = \<lparr>s_query = ''family'', s_context = None, s_limit = None\<rparr>"

section \<open>Sorting and slicing\<close>

text \<open>
  A comparator that is positive exactly when its first argument has the larger key sorts like
  the library's stable insertion sort by key.
\<close>

lemma insert_cmp_insort_key:
  fixes f :: "'a \<Rightarrow> 'b::linorder"
  assumes "\<And>x y. cmp_positive (cmp x y) \<longleftrightarrow> f y < f x"
  shows "insert_cmp cmp x ys = insort_key f x ys"
  by (induction ys) (auto simp: assms)

lemma sort_cmp_sort_key:
  fixes f :: "'a \<Rightarrow> 'b::linorder"
  assumes "\<And>x y. cmp_positive (cmp x y) \<longleftrightarrow> f y < f x"
  shows "sort_cmp cmp xs = sort_key f xs"
  unfolding sort_cmp_def sort_key_def
  by (induction xs) (simp_all add: insert_cmp_insort_key [of cmp f, OF assms])

lemma set_insert_cmp: "set (insert_cmp cmp x ys) = insert x (set ys)"
  by (induction ys) auto

lemma set_sort_cmp: "set (sort_cmp cmp xs) = set xs"
  unfolding sort_cmp_def by (induction xs) (simp_all add: set_insert_cmp)

lemma map_insert_cmp:
  "map f (insert_cmp (\<lambda>a b. c (f a) (f b)) x ys) = insert_cmp c (f x) (map f ys)"
  by (induction ys) auto

lemma map_sort_cmp:
  "map f (sort_cmp (\<lambda>a b. c (f a) (f b)) xs) = sort_cmp c (map f xs)"
  unfolding sort_cmp_def by (induction xs) (simp_all add: map_insert_cmp)

lemma set_slice: "set (slice a b xs) \<subseteq> set xs"
  unfolding slice_def Let_def by (meson order_trans set_drop_subset set_take_subset)

lemma map_slice: "map f (slice a b xs) = slice a b (map f xs)"
  unfolding slice_def Let_def by (simp add: take_map drop_map)

section \<open>The heap during a search\<close>

text \<open>
  The copies of a search are allocated behind the existing objects, and the existing objects
  keep their values.
\<close>

lemma spreadCopies_eq:
  "\<forall>r \<in> set rs. r < length h \<Longrightarrow>
   spreadCopies score rs h =
     ([length h ..< length h + length rs],
      h @ map (\<lambda>r. (h ! r)\<lparr>relevanceScore := score (h ! r)\<rparr>) rs)"
proof (induction rs arbitrary: h)
  case Nil
  then show ?case by simp
next
  case (Cons r rs)
  let ?copy = "(h ! r)\<lparr>relevanceScore := score (h ! r)\<rparr>"
  have bound: "\<forall>r' \<in> set rs. r' < length (h @ [?copy])"
    using Cons.prems by auto
  have same: "map (\<lambda>r'. ((h @ [?copy]) ! r')\<lparr>relevanceScore := score ((h @ [?copy]) ! r')\<rparr>) rs
              = map (\<lambda>r'. (h ! r')\<lparr>relevanceScore := score (h ! r')\<rparr>) rs"
    using Cons.prems by (auto simp: nth_append)
  show ?case
    using Cons.IH [OF bound] same
    by (simp add: upt_rec [of "length h"] del: upt_Suc)
qed

lemma toResult_accessCount [simp]:
  "toResult (m\<lparr>accessCount := n\<rparr>) = toResult m"
  by (rule ext) (simp add: toResult_def)


lemma attempt_update:
  "attempt dec key (h[r := (h ! r)\<lparr>accessCount := n\<rparr>] ! r') = attempt dec key (h ! r')"
proof (cases "r < length h")
  case True
  then show ?thesis by (cases "r' = r") (simp_all add: attempt_def)
next
  case False
  then show ?thesis by (simp add: list_update_beyond)
qed

lemma decryptEach_fst:
  "fst (decryptEach dec key rs h) = map (\<lambda>r. attempt dec key (h ! r)) rs"
proof (induction rs arbitrary: h)
  case Nil
  then show ?case by simp
next
  case (Cons r rs)
  show ?case
  proof (cases "dec (encryptedContent (h ! r)) key")
    case None
    then show ?thesis using Cons.IH [of h] by (simp add: split_beta attempt_def)
  next
    case (Some c)
    let ?h1 = "h[r := (h ! r)\<lparr>accessCount := accessCount (h ! r) + 1\<rparr>]"
    have "fst (decryptEach dec key rs ?h1) = map (\<lambda>r. attempt dec key (h ! r)) rs"
      using Cons.IH [of ?h1] by (simp add: attempt_update)
    moreover have "toResult (?h1 ! r) c = toResult (h ! r) c"
      by (cases "r < length h") (simp_all add: list_update_beyond)
    ultimately show ?thesis using Some by (simp add: split_beta attempt_def Let_def)
  qed
qed

lemma decryptEach_length: "length (snd (decryptEach dec key rs h)) = length h"
  by (induction rs arbitrary: h) (auto simp: split_beta Let_def split: option.splits)

lemma decryptEach_other:
  "r' \<notin> set rs \<Longrightarrow> snd (decryptEach dec key rs h) ! r' = h ! r'"
  by (induction rs arbitrary: h) (auto simp: split_beta Let_def split: option.splits)


section \<open>What a search returns and what it leaves in the store\<close>

lemma nth_append_upt: "map ((!) (h @ xs)) [length h ..< length h + length xs] = xs"
  by (rule nth_equalityI) (simp_all add: nth_append)

lemma wf_db_ownedRefs: "wf_db d \<Longrightarrow> \<forall>r \<in> set (ownedRefs d uid). r < length (heap d)"
  by (auto simp: wf_db_def ownedRefs_def map_values_def)

lemma requestContext_eq:
  "searchContext (s_query body) (orDefault \<lparr>keywords_c = None, extra = []\<rparr> (s_context body))
   = requestContext body"
  by (simp add: requestContext_def)

lemma relevant_deref:
  "map ((!) h) (relevantMemories h n rs)
   = slice 0 n (sort_cmp byScoreDescV
       (filter (\<lambda>m. num_gt (relevanceScore m) (Num (1 / 2))) (map ((!) h) rs)))"
proof -
  have cmp: "byScoreDesc h = (\<lambda>a b. byScoreDescV (h ! a) (h ! b))"
    by (intro ext) (simp add: byScoreDesc_def byScoreDescV_def)
  show ?thesis
    unfolding relevantMemories_def cmp
    by (simp add: map_slice map_sort_cmp filter_map o_def)
qed

lemma relevant_subset: "set (relevantMemories h n rs) \<subseteq> set rs"
  unfolding relevantMemories_def using set_slice [of 0 n] by (fastforce simp: set_sort_cmp)

lemma search_fst:
  assumes wf: "wf_db d" and q: "s_query body \<noteq> []" and u: "findUser d uid = Some user0"
  shows "fst (search e now uid body d) =
           Inr \<lparr>query_s = s_query body,
                results = compact (map (attempt (decryptData e) (privateKey user0))
                                     (selectedRecords now uid body d)),
                totalFound = length (compact (map (attempt (decryptData e) (privateKey user0))
                                     (selectedRecords now uid body d)))\<rparr>"
proof -
  let ?score = "\<lambda>m. calculateRelevanceScore now m (requestContext body)"
  let ?copies = "map (\<lambda>r. (heap d ! r)\<lparr>relevanceScore := ?score (heap d ! r)\<rparr>) (ownedRefs d uid)"
  let ?h1 = "heap d @ ?copies"
  let ?ms = "[length (heap d) ..< length (heap d) + length (ownedRefs d uid)]"
  have sp: "spreadCopies ?score (ownedRefs d uid) (heap d) = (?ms, ?h1)"
    using spreadCopies_eq [OF wf_db_ownedRefs [OF wf]] by simp
  have copies: "map ((!) ?h1) ?ms = scoredRecords now uid body d"
    using nth_append_upt [of "heap d" ?copies] by (simp add: scoredRecords_def)
  have sel: "map ((!) ?h1) (relevantMemories ?h1 (orDefault 20 (s_limit body)) ?ms)
             = selectedRecords now uid body d"
    by (simp only: relevant_deref copies selectedRecords_def)
  have res: "fst (decryptEach (decryptData e) (privateKey user0)
                (relevantMemories ?h1 (orDefault 20 (s_limit body)) ?ms) ?h1)
             = map (attempt (decryptData e) (privateKey user0)) (selectedRecords now uid body d)"
    unfolding decryptEach_fst sel [symmetric] by (simp add: o_def)
  show ?thesis
    using q u sp res
    by (simp add: search_def requestContext_eq Let_def split_beta)
qed

lemma search_users: "users (snd (search e now uid body d)) = users d"
  by (simp add: search_def Let_def split_beta split: option.splits)

lemma search_memories: "memories (snd (search e now uid body d)) = memories d"
  by (simp add: search_def Let_def split_beta split: option.splits)

lemma search_heap:
  assumes wf: "wf_db d" and r: "r < length (heap d)"
  shows "heap (snd (search e now uid body d)) ! r = heap d ! r"
proof (cases "s_query body = [] \<or> findUser d uid = None")
  case True
  then show ?thesis by (auto simp: search_def Let_def)
next
  case False
  then obtain user0 where u: "findUser d uid = Some user0" and q: "s_query body \<noteq> []"
    by auto
  let ?score = "\<lambda>m. calculateRelevanceScore now m (requestContext body)"
  let ?copies = "map (\<lambda>r. (heap d ! r)\<lparr>relevanceScore := ?score (heap d ! r)\<rparr>) (ownedRefs d uid)"
  let ?h1 = "heap d @ ?copies"
  let ?ms = "[length (heap d) ..< length (heap d) + length (ownedRefs d uid)]"
  let ?rel = "relevantMemories ?h1 (orDefault 20 (s_limit body)) ?ms"
  have sp: "spreadCopies ?score (ownedRefs d uid) (heap d) = (?ms, ?h1)"
    using spreadCopies_eq [OF wf_db_ownedRefs [OF wf]] by simp
  have "r \<notin> set ?rel"
    using relevant_subset [of ?h1 "orDefault 20 (s_limit body)" ?ms] r by auto
  then have "snd (decryptEach (decryptData e) (privateKey user0) ?rel ?h1) ! r = ?h1 ! r"
    by (rule decryptEach_other)
  also have "\<dots> = heap d ! r"
    using r by (simp add: nth_append)
  finally show ?thesis
    using q u sp by (simp add: search_def requestContext_eq Let_def split_beta)
qed

lemma search_heap_length:
  assumes wf: "wf_db d"
  shows "length (heap d) \<le> length (heap (snd (search e now uid body d)))"
proof -
  have "\<forall>r \<in> set (ownedRefs d uid). r < length (heap d)"
    using wf by (rule wf_db_ownedRefs)
  from spreadCopies_eq [OF this] show ?thesis
    by (auto simp: search_def requestContext_eq Let_def split_beta decryptEach_length
             split: option.splits)
qed

lemma search_wf: "wf_db d \<Longrightarrow> wf_db (snd (search e now uid body d))"
  using search_heap [of d _ e now uid body] search_heap_length [of d e now uid body]
  by (fastforce simp: wf_db_def search_memories)

section \<open>Substrings and splitting\<close>

lemma startsWith_iff: "startsWith t k \<longleftrightarrow> (\<exists>s. t = k @ s)"
  by (induction t k rule: startsWith.induct) auto

lemma includes_str_iff: "includes_str t k \<longleftrightarrow> (\<exists>p s. t = p @ k @ s)"
proof (induction t)
  case Nil
  then show ?case by auto
next
  case (Cons c cs)
  show ?case
  proof
    assume "includes_str (c # cs) k"
    then consider "startsWith (c # cs) k" | "includes_str cs k" by auto
    then show "\<exists>p s. c # cs = p @ k @ s"
    proof cases
      case 1
      then obtain s where "c # cs = [] @ k @ s" by (auto simp: startsWith_iff)
      then show ?thesis by blast
    next
      case 2
      then obtain p s where "cs = p @ k @ s" using Cons.IH by blast
      then have "c # cs = (c # p) @ k @ s" by simp
      then show ?thesis by blast
    qed
  next
    assume "\<exists>p s. c # cs = p @ k @ s"
    then obtain p s where eq: "c # cs = p @ k @ s" by blast
    show "includes_str (c # cs) k"
    proof (cases p)
      case Nil
      with eq have "startsWith (c # cs) k" by (auto simp: startsWith_iff)
      then show ?thesis by simp
    next
      case (Cons a p')
      with eq have "cs = p' @ k @ s" by simp
      then have "includes_str cs k" using Cons.IH by blast
      then show ?thesis by simp
    qed
  qed
qed

lemma split_not_Nil: "split sep s \<noteq> []"
  by (induction s) (auto split: list.splits)

lemma join_Cons_Cons: "join sep ((x # w) # ws) = x # join sep (w # ws)"
  by (cases ws) simp_all

lemma join_split: "join [sep] (split sep s) = s"
proof (induction s)
  case Nil
  then show ?case by simp
next
  case (Cons c cs)
  obtain w ws where sp: "split sep cs = w # ws"
    using split_not_Nil [of sep cs] by (cases "split sep cs") auto
  show ?case
    using Cons.IH sp by (simp add: join_Cons_Cons)
qed

lemma split_no_sep: "\<forall>k \<in> set (split sep s). sep \<notin> set k"
  by (induction s) (auto split: list.splits)

section \<open>The relevance score\<close>

text \<open>
  With keywords absent, or present and not the empty array, the score is a number between
  0 and 10 and its context summand is five times the matching fraction of the keywords.
\<close>

lemma contextTerm_nonempty:
  "ks \<noteq> [] \<Longrightarrow>
   contextTerm m ks =
     Num (of_nat (length (filter (includes_str (memoryText_of m)) (map toLowerCase ks)))
          / of_nat (length ks) * 5)"
  by (simp add: contextTerm_def num_div_counts_def)

lemma score_without_keywords:
  "keywords_c ctx = None \<Longrightarrow>
   calculateRelevanceScore now m ctx =
     Num (min (max 0 (10 - of_int (now - timestamp m) / 86400000) * (1 / 10)
               + of_nat (accessCount m) * (1 / 20)) 10)"
  by (simp add: calculateRelevanceScore_def)

lemma score_with_keywords:
  "keywords_c ctx = Some ks \<Longrightarrow> ks \<noteq> [] \<Longrightarrow>
   calculateRelevanceScore now m ctx =
     Num (min (max 0 (10 - of_int (now - timestamp m) / 86400000) * (1 / 10)
               + of_nat (accessCount m) * (1 / 20)
               + of_nat (length (filter (includes_str (memoryText_of m)) (map toLowerCase ks)))
                 / of_nat (length ks) * 5) 10)"
  by (simp add: calculateRelevanceScore_def contextTerm_nonempty)

lemma score_bound:
  assumes "keywords_c ctx \<noteq> Some []"
  shows "\<exists>v. calculateRelevanceScore now m ctx = Num v \<and> 0 \<le> v \<and> v \<le> 10"
proof (cases "keywords_c ctx")
  case None
  have "0 \<le> max 0 (10 - of_int (now - timestamp m) / 86400000) * (1 / 10 :: rat)
        + of_nat (accessCount m) * (1 / 20)"
    by simp
  then show ?thesis unfolding score_without_keywords [OF None] by simp
next
  case (Some ks)
  with assms have ne: "ks \<noteq> []" by simp
  have "0 \<le> max 0 (10 - of_int (now - timestamp m) / 86400000) * (1 / 10 :: rat)
        + of_nat (accessCount m) * (1 / 20)
        + of_nat (length (filter (includes_str (memoryText_of m)) (map toLowerCase ks)))
          / of_nat (length ks) * 5"
    by simp
  then show ?thesis unfolding score_with_keywords [OF Some ne] by simp
qed

text \<open>
  Claim C3 (context-overlap term): the term is five times the fraction of the lower-cased
  keywords that occur in the lower-cased text of the memory when \<^verbatim>\<open>context.keywords\<close>
  is non-empty (\<open>contextTerm_nonempty\<close>), it is not added when the keywords are absent
  (\<open>score_without_keywords\<close>), and the claim has it 0 for the empty array. The guard
  \<^verbatim>\<open>if (context.keywords)\<close> lets the empty array through, and the term is then
  \<^verbatim>\<open>0 / 0 * 5\<close>, which is \<^verbatim>\<open>NaN\<close> and not 0, for every memory.
\<close>

theorem contextTerm_empty_keywords: "contextTerm m [] = NaN"
  by (simp add: contextTerm_def num_div_counts_def)

text \<open>
  Claim C4 (score bound): the score is claimed to lie between 0 and 10 for every memory and
  context. It does whenever the keywords are absent or non-empty (\<open>score_bound\<close>); with
  the empty keyword array the score of every memory, at every time, is \<^verbatim>\<open>NaN\<close>, which
  \<^verbatim>\<open>Math.min\<close> hands through and which is neither at least 0 nor at most 10.
\<close>

theorem score_empty_keywords:
  "calculateRelevanceScore now m \<lparr>keywords_c = Some [], extra = x\<rparr> = NaN"
  by (simp add: calculateRelevanceScore_def contextTerm_def num_div_counts_def)

section \<open>The scoring context of a search\<close>

text \<open>
  Claim C8 (search context construction), as stated: the tokens of the query are merged with
  the caller's keywords. They are not: keywords sent by the caller replace the ones from the
  query, so the query token \<^verbatim>\<open>budget\<close> is no keyword of the context below; and the
  query is split at the space character only, so a tab separates no tokens.
\<close>

theorem searchContext_counterexample:
  "keywords_c (searchContext ''budget'' \<lparr>keywords_c = Some [''family''], extra = []\<rparr>)
     = Some [''family'']
   \<and> ''budget'' \<notin> set [''family'']
   \<and> keywords_c (searchContext [CHR ''a'', CHR 0x09, CHR ''b''] \<lparr>keywords_c = None, extra = []\<rparr>)
     = Some [[CHR ''a'', CHR 0x09, CHR ''b'']]
   \<and> ''a'' \<noteq> [CHR ''a'', CHR 0x09, CHR ''b'']"
  by (simp add: searchContext_def toLowerCase_def toLowerCase_char_def)

text \<open>
  Claim C8, amended: the keywords of the scoring context are the caller's
  \<^verbatim>\<open>context.keywords\<close> when the caller sends them, and otherwise the pieces of the
  lower-cased query between its space characters (joined with spaces they give the lower-cased
  query back, and no piece contains a space); the caller's other context fields are kept.
\<close>

theorem searchContext_keywords:
  "extra (searchContext query ctx) = extra ctx
   \<and> (\<forall>ks. keywords_c ctx = Some ks \<longrightarrow> keywords_c (searchContext query ctx) = Some ks)
   \<and> (keywords_c ctx = None \<longrightarrow>
        (\<exists>ks. keywords_c (searchContext query ctx) = Some ks \<and> ks \<noteq> []
              \<and> join '' '' ks = toLowerCase query
              \<and> (\<forall>k \<in> set ks. CHR '' '' \<notin> set k)))"
  using split_not_Nil [of "CHR '' ''" "toLowerCase query"]
        join_split [of "CHR '' ''" "toLowerCase query"]
        split_no_sep [of "CHR '' ''" "toLowerCase query"]
  by (simp add: searchContext_def)

lemma lower_sample: "toLowerCase ''Budget  plan'' = ''budget  plan''"
  by code_simp

text \<open>
  Both cases of the amended claim C8 on requests: keywords sent by the caller, and a query with
  two adjacent spaces, which gives an empty keyword.
\<close>

theorem searchContext_keywords_witness:
  "keywords_c (searchContext ''budget'' \<lparr>keywords_c = Some [''family''], extra = [(''topic'', ''x'')]\<rparr>)
     = Some [''family'']
   \<and> extra (searchContext ''budget'' \<lparr>keywords_c = Some [''family''], extra = [(''topic'', ''x'')]\<rparr>)
     = [(''topic'', ''x'')]
   \<and> keywords_c (searchContext ''Budget  plan'' \<lparr>keywords_c = None, extra = []\<rparr>)
     = Some [''budget'', '''', ''plan'']
   \<and> join '' '' [''budget'', '''', ''plan''] = toLowerCase ''Budget  plan''"
  using searchContext_keywords [of "''budget''" "\<lparr>keywords_c = Some [''family''], extra = [(''topic'', ''x'')]\<rparr>"]
        searchContext_keywords [of "''Budget  plan''" "\<lparr>keywords_c = None, extra = []\<rparr>"]
  by (simp add: searchContext_def lower_sample)

section \<open>The order of a listing\<close>

text \<open>
  The filters of the list handler keep the records that pass each given parameter, and the
  comparator of its sort is the one of a stable sort by descending timestamp.
\<close>

lemma whenGiven_filter:
  "whenGiven p (\<lambda>x. filter (Q x)) ms = filter (\<lambda>m. passes p (\<lambda>x. Q x m)) ms"
  by (cases p) simp_all

lemma applyFilters_eq:
  "applyFilters q ms =
     filter (\<lambda>m. passes (q_type q) (\<lambda>t. type_m m = t)
              \<and> passes (q_source q) (\<lambda>s. source m = s)
              \<and> passes (q_tags q) (\<lambda>ts. \<exists>tag \<in> set (split (CHR '','') ts). tag \<in> set (tags m)))
       ms"
proof -
  have tags: "whenGiven (q_tags q)
                (\<lambda>ts. let tagList = split (CHR '','') ts
                      in filter (\<lambda>m. \<exists>tag \<in> set tagList. tag \<in> set (tags m))) xs
              = filter (\<lambda>m. passes (q_tags q)
                  (\<lambda>ts. \<exists>tag \<in> set (split (CHR '','') ts). tag \<in> set (tags m))) xs"
    for xs :: "memory list"
    using whenGiven_filter [of "q_tags q"
        "\<lambda>ts m. \<exists>tag \<in> set (split (CHR '','') ts). tag \<in> set (tags m)" xs]
    by (simp add: Let_def)
  show ?thesis
    unfolding applyFilters_def Let_def tags
    by (simp add: whenGiven_filter conj_commute conj_left_commute cong: conj_cong)
qed

lemma ownedRefs_deref:
  "map ((!) (heap d)) (ownedRefs d uid) = filter (\<lambda>m. userId m = uid) (storedMemories d)"
  by (simp add: ownedRefs_def storedMemories_def filter_map o_def)

lemma filteredMemories_eq:
  "filteredMemories uid q d =
     filter (\<lambda>m. userId m = uid
              \<and> passes (q_type q) (\<lambda>t. type_m m = t)
              \<and> passes (q_source q) (\<lambda>s. source m = s)
              \<and> passes (q_tags q) (\<lambda>ts. \<exists>tag \<in> set (split (CHR '','') ts). tag \<in> set (tags m)))
       (storedMemories d)"
  unfolding filteredMemories_def applyFilters_eq
  using ownedRefs_deref [of d uid]
  by (simp add: conj_commute conj_left_commute cong: conj_cong)

lemma byTimestampDesc_key:
  "cmp_positive (byTimestampDesc x y) \<longleftrightarrow> - timestamp y < - timestamp x"
  by (simp add: byTimestampDesc_def)

lemma sort_byTimestampDesc:
  "sort_cmp byTimestampDesc ms = sort_key (\<lambda>m. - timestamp m) ms"
  by (rule sort_cmp_sort_key) (rule byTimestampDesc_key)

lemma listMemories_items:
  "set (memories_l (listMemories uid q d))
     \<subseteq> toSummary ` {m \<in> set (storedMemories d). userId m = uid}"
proof -
  have "set (slice a b (sort_cmp byTimestampDesc (filteredMemories uid q d)))
          \<subseteq> {m \<in> set (storedMemories d). userId m = uid}" for a b
    using set_slice [of a b "sort_cmp byTimestampDesc (filteredMemories uid q d)"]
    by (auto simp: set_sort_cmp filteredMemories_eq)
  then show ?thesis
    by (auto simp: listMemories_def Let_def)
qed

text \<open>
  The sort of the list handler: its result is in descending order of timestamp, holds every
  record it was given once, and keeps the records of one timestamp in the order given.
\<close>

lemma listing_sorted:
  "sorted_wrt (\<lambda>a b. timestamp b \<le> timestamp a) (sort_cmp byTimestampDesc ms)
   \<and> mset (sort_cmp byTimestampDesc ms) = mset ms
   \<and> (\<forall>t. filter (\<lambda>m. timestamp m = t) (sort_cmp byTimestampDesc ms)
          = filter (\<lambda>m. timestamp m = t) ms)"
proof -
  let ?key = "\<lambda>m. - timestamp m"
  have "sorted (map ?key (sort_key ?key ms))"
    by (rule sorted_sort_key)
  then have sorted: "sorted_wrt (\<lambda>a b. timestamp b \<le> timestamp a) (sort_key ?key ms)"
    by (simp add: sorted_map)
  have stable: "filter (\<lambda>m. timestamp m = t) (sort_key ?key ms)
                = filter (\<lambda>m. timestamp m = t) ms" for t
    using sort_key_stable [of ?key "- t" ms] by simp
  show ?thesis
    unfolding sort_byTimestampDesc using sorted stable by simp
qed

text \<open>
  The page of a listing. Between indices that are not negative, \<^verbatim>\<open>slice\<close> drops the
  records before the first index and takes as many as the indices are apart. Without an
  offset in the query the page is the first \<open>limit\<close> records of the sorted sequence; with
  an offset it starts at the offset and ends at the index written with the digits of the
  offset followed by those of the limit (\<open>ndigits\<close> is the number of decimal digits).
\<close>

lemma slice_nat: "slice (int a) (int b) xs = take (b - a) (drop a xs)"
proof (cases "a \<le> length xs")
  case True
  show ?thesis
  proof (cases "b \<le> length xs")
    case True
    with \<open>a \<le> length xs\<close> show ?thesis
      by (simp add: slice_def Let_def min_def nat_diff_distrib')
  next
    case False
    with \<open>a \<le> length xs\<close> have "nat (min (int b) (int (length xs)) - min (int a) (int (length xs)))
        = length xs - a"
      by (simp add: min_def nat_diff_distrib')
    moreover have "length xs - a \<le> b - a"
      using False by simp
    ultimately show ?thesis
      using \<open>a \<le> length xs\<close> by (simp add: slice_def Let_def min_def)
  qed
next
  case False
  then show ?thesis
    by (simp add: slice_def Let_def min_def)
qed

lemma ndigits_bounds:
  "0 < ndigits n \<and> n < 10 ^ ndigits n \<and> (n < 10 \<or> 10 ^ (ndigits n - 1) \<le> n)"
proof (induction n rule: ndigits.induct)
  case (1 n)
  show ?case
  proof (cases "n < 10")
    case True
    then show ?thesis by (subst (1 2 3) ndigits.simps) simp
  next
    case False
    let ?k = "ndigits (n div 10)"
    have eq: "ndigits n = Suc ?k"
      using False by (subst ndigits.simps) simp
    from "1.IH" [OF False] have pos: "0 < ?k" and up: "n div 10 < 10 ^ ?k"
      and low: "n div 10 < 10 \<or> 10 ^ (?k - 1) \<le> n div 10"
      by simp_all
    from up have "n div 10 + 1 \<le> 10 ^ ?k" by simp
    then have "10 * (n div 10 + 1) \<le> 10 * 10 ^ ?k" by simp
    moreover have "n < 10 * (n div 10 + 1)" by simp
    ultimately have upper: "n < 10 ^ Suc ?k" by simp
    have "(10::nat) ^ ?k \<le> n"
    proof (cases "n div 10 < 10")
      case True
      then have "?k = 1" by (subst ndigits.simps) simp
      with False show ?thesis by simp
    next
      case False
      with low have "10 ^ (?k - 1) \<le> n div 10" by simp
      then have "10 * 10 ^ (?k - 1) \<le> 10 * (n div 10)" by simp
      moreover have "(10::nat) * 10 ^ (?k - 1) = 10 ^ ?k"
        using pos by (cases ?k) simp_all
      moreover have "10 * (n div 10) \<le> n" by simp
      ultimately show ?thesis by linarith
    qed
    with upper show ?thesis by (simp add: eq)
  qed
qed

lemma listMemories_page:
  "memories_l (listMemories uid q d) =
     map toSummary
       (case q_offset q of
          None \<Rightarrow> take (orDefault 50 (q_limit q))
                    (sort_cmp byTimestampDesc (filteredMemories uid q d))
        | Some off \<Rightarrow>
            take (off * 10 ^ ndigits (orDefault 50 (q_limit q)) + orDefault 50 (q_limit q) - off)
              (drop off (sort_cmp byTimestampDesc (filteredMemories uid q d))))"
  unfolding listMemories_def Let_def slice_nat
  by (cases "q_offset q") (simp_all del: ndigits.simps)

text \<open>
  The order of the page returned, whatever the filters, the offset and the limit: it is in
  descending order of timestamp, and its records of one timestamp are consecutive matching
  records of that timestamp in the order of their insertion into the store.
\<close>

lemma page_sorted:
  "sorted_wrt (\<lambda>a b. l_timestamp b \<le> l_timestamp a) (memories_l (listMemories uid q d))"
proof -
  let ?sorted = "sort_cmp byTimestampDesc (filteredMemories uid q d)"
  have "sorted_wrt (\<lambda>a b. timestamp b \<le> timestamp a) (take n (drop i ?sorted))" for i n
    using listing_sorted [of "filteredMemories uid q d"]
    by (simp add: sorted_wrt_take sorted_wrt_drop)
  then have "sorted_wrt (\<lambda>a b. l_timestamp b \<le> l_timestamp a)
               (map toSummary (take n (drop i ?sorted)))" for i n
    by (simp add: sorted_wrt_map toSummary_def)
  then show ?thesis
    unfolding listMemories_def Let_def slice_nat by (simp del: ndigits.simps)
qed

lemma filter_take_eq:
  "filter P (take n xs) = take (length (filter P (take n xs))) (filter P xs)"
proof -
  have "filter P xs = filter P (take n xs) @ filter P (drop n xs)"
    by (metis append_take_drop_id filter_append)
  then show ?thesis by simp
qed

lemma filter_drop_eq:
  "filter P (drop n xs) = drop (length (filter P (take n xs))) (filter P xs)"
proof -
  have "filter P xs = filter P (take n xs) @ filter P (drop n xs)"
    by (metis append_take_drop_id filter_append)
  then show ?thesis by simp
qed

lemma page_ties:
  "\<exists>i n. filter (\<lambda>s. l_timestamp s = t) (memories_l (listMemories uid q d))
         = map toSummary
             (take n (drop i (filter (\<lambda>m. timestamp m = t) (filteredMemories uid q d))))"
proof -
  let ?sorted = "sort_cmp byTimestampDesc (filteredMemories uid q d)"
  let ?P = "\<lambda>m. timestamp m = t"
  obtain a b where page: "memories_l (listMemories uid q d) = map toSummary (take b (drop a ?sorted))"
    unfolding listMemories_def Let_def slice_nat by (auto simp del: ndigits.simps)
  have "filter (\<lambda>s. l_timestamp s = t) (map toSummary (take b (drop a ?sorted)))
        = map toSummary (filter ?P (take b (drop a ?sorted)))"
    by (simp add: filter_map o_def toSummary_def)
  also have "filter ?P (take b (drop a ?sorted))
             = take (length (filter ?P (take b (drop a ?sorted)))) (filter ?P (drop a ?sorted))"
    by (rule filter_take_eq)
  also have "filter ?P (drop a ?sorted)
             = drop (length (filter ?P (take a ?sorted))) (filter ?P ?sorted)"
    by (rule filter_drop_eq)
  also have "filter ?P ?sorted = filter ?P (filteredMemories uid q d)"
    using listing_sorted [of "filteredMemories uid q d"] by simp
  finally show ?thesis
    unfolding page by blast
qed

lemma sample_listed:
  "map l_id (memories_l (listMemories ''u1'' noFilter sampleStore)) = [''m2'', ''m4'', ''m1'']"
  by code_simp

text \<open>
  Claim C9 (list ordering): the listing is claimed to be the user's matching memories sorted
  by timestamp, newest first, with equal timestamps in insertion order, and paginated with
  offset and limit after this sort. The order holds of every page returned
  (\<open>page_sorted\<close>, \<open>page_ties\<close>) and the page is cut out of the sorted sequence
  (\<open>listMemories_page\<close>). The page itself is not the one offset and limit name once the
  query carries an offset: the handler adds \<^verbatim>\<open>parseInt(limit)\<close> to the offset as the
  query string gave it, a string, and so ends the page at the digits of the offset followed
  by those of the limit. Alice's listing is \<^verbatim>\<open>m2\<close>, \<^verbatim>\<open>m4\<close>, \<^verbatim>\<open>m1\<close>; with limit 1 it
  is \<^verbatim>\<open>m2\<close>; with offset 1 and limit 1 it is the slice from 1 to 11, the two records
  \<^verbatim>\<open>m4\<close> and \<^verbatim>\<open>m1\<close>, under a response that reports limit 1 and offset 1.
\<close>

theorem listing_page_exceeds_limit:
  "map l_id (memories_l (listMemories ''u1'' noFilter sampleStore)) = [''m2'', ''m4'', ''m1'']
   \<and> map l_id (memories_l (listMemories ''u1'' (noFilter\<lparr>q_limit := Some 1\<rparr>) sampleStore))
       = [''m2'']
   \<and> map l_id (memories_l (listMemories ''u1''
         (noFilter\<lparr>q_limit := Some 1, q_offset := Some 1\<rparr>) sampleStore)) = [''m4'', ''m1'']
   \<and> limit_l (listMemories ''u1'' (noFilter\<lparr>q_limit := Some 1, q_offset := Some 1\<rparr>) sampleStore) = 1
   \<and> offset_l (listMemories ''u1'' (noFilter\<lparr>q_limit := Some 1, q_offset := Some 1\<rparr>) sampleStore) = 1"
  by code_simp

section \<open>Stores reached by running requests\<close>

text \<open>
  A create request either leaves the store alone or allocates one new memory, with access
  count 0 and relevance score 1, and enters it under its identifier. Every request keeps the
  store well-formed, and a property that holds of new memories and of the stored ones holds
  of the stored ones after any run: no request writes a stored memory.
\<close>

lemma map_set_keys:
  "fst ` set (map_set k v kvs) = insert k (fst ` set kvs)"
  by (induction k v kvs rule: map_set.induct) auto

lemma map_set_distinct:
  "distinct (map fst kvs) \<Longrightarrow> distinct (map fst (map_set k v kvs))"
  by (induction k v kvs rule: map_set.induct) (auto simp: map_set_keys)

lemma map_set_entries:
  "distinct (map fst kvs) \<Longrightarrow>
   set (map_set k v kvs) = insert (k, v) {(k', v'). (k', v') \<in> set kvs \<and> k' \<noteq> k}"
  by (induction k v kvs rule: map_set.induct) (auto simp: rev_image_eqI)

lemma createMemory_store:
  "snd (createMemory e now mid uid body d) = d
   \<or> (\<exists>m0. id_m m0 = mid \<and> accessCount m0 = 0 \<and> relevanceScore m0 = Num 1
         \<and> content m0 = None
         \<and> memories (snd (createMemory e now mid uid body d))
             = map_set mid (length (heap d)) (memories d)
         \<and> heap (snd (createMemory e now mid uid body d)) = heap d @ [m0])"
  by (auto simp: createMemory_def Let_def split: option.splits)

lemma createMemory_invariant:
  assumes wf: "wf_db d"
    and P: "\<forall>m \<in> set (storedMemories d). P m"
    and new: "\<And>m0. accessCount m0 = 0 \<Longrightarrow> relevanceScore m0 = Num 1 \<Longrightarrow> content m0 = None \<Longrightarrow> P m0"
  shows "wf_db (snd (createMemory e now mid uid body d))
         \<and> (\<forall>m \<in> set (storedMemories (snd (createMemory e now mid uid body d))). P m)"
proof -
  let ?d' = "snd (createMemory e now mid uid body d)"
  consider "?d' = d"
    | m0 where "id_m m0 = mid" "accessCount m0 = 0" "relevanceScore m0 = Num 1"
        "memories ?d' = map_set mid (length (heap d)) (memories d)"
        "heap ?d' = heap d @ [m0]" "content m0 = None"
    using createMemory_store [of e now mid uid body d] by blast
  then show ?thesis
  proof cases
    case 1
    then show ?thesis using wf P by simp
  next
    case 2
    have dist: "distinct (map fst (memories d))"
      and old: "\<And>k r. (k, r) \<in> set (memories d) \<Longrightarrow> r < length (heap d) \<and> id_m (heap d ! r) = k"
      using wf by (auto simp: wf_db_def)
    have entries: "set (memories ?d')
                   = insert (mid, length (heap d)) {(k', v'). (k', v') \<in> set (memories d) \<and> k' \<noteq> mid}"
      using map_set_entries [OF dist, of mid "length (heap d)"] by (simp add: 2(4))
    have heap': "heap ?d' = heap d @ [m0]"
      by (rule 2(5))
    have "distinct (map fst (memories ?d'))"
      using map_set_distinct [OF dist, of mid "length (heap d)"] by (simp add: 2(4))
    moreover have "r < length (heap ?d') \<and> id_m (heap ?d' ! r) = k"
      if "(k, r) \<in> set (memories ?d')" for k r
      using that old [of k r] 2(1) unfolding entries heap'
      by (auto simp: nth_append)
    ultimately have "wf_db ?d'"
      unfolding wf_db_def by blast
    moreover have "P m" if "m \<in> set (storedMemories ?d')" for m
    proof -
      from that obtain k r where kr: "(k, r) \<in> set (memories ?d')" and m: "m = heap ?d' ! r"
        by (auto simp: storedMemories_def map_values_def)
      from kr entries consider "r = length (heap d)" | "(k, r) \<in> set (memories d)"
        by auto
      then show ?thesis
      proof cases
        case 1
        then show ?thesis using m heap' new 2(2,3,6) by simp
      next
        case 2
        then have "r < length (heap d)" using old by blast
        moreover have "heap d ! r \<in> set (storedMemories d)"
          using 2 by (force simp: storedMemories_def map_values_def)
        ultimately show ?thesis using m heap' P by (simp add: nth_append)
      qed
    qed
    ultimately show ?thesis by blast
  qed
qed

lemma search_storedMemories:
  assumes wf: "wf_db d"
  shows "storedMemories (snd (search e now uid body d)) = storedMemories d"
proof -
  have "\<forall>r \<in> set (map_values (memories d)). r < length (heap d)"
    using wf by (auto simp: wf_db_def map_values_def)
  then show ?thesis
    using search_heap [OF wf]
    by (simp add: storedMemories_def search_memories)
qed

lemma perform_invariant:
  assumes wf: "wf_db d"
    and P: "\<forall>m \<in> set (storedMemories d). P m"
    and new: "\<And>m0. accessCount m0 = 0 \<Longrightarrow> relevanceScore m0 = Num 1 \<Longrightarrow> content m0 = None \<Longrightarrow> P m0"
  shows "wf_db (perform e op d) \<and> (\<forall>m \<in> set (storedMemories (perform e op d)). P m)"
proof (cases op)
  case (Create now mid uid body)
  have "wf_db (snd (createMemory e now mid uid body d))
        \<and> (\<forall>m \<in> set (storedMemories (snd (createMemory e now mid uid body d))). P m)"
    by (rule createMemory_invariant [OF wf P]) (rule new)
  with Create show ?thesis by simp
next
  case (List uid q)
  then show ?thesis using wf P by simp
next
  case (Search now uid body)
  then show ?thesis using search_wf [OF wf] search_storedMemories [OF wf] P by simp
qed

lemma run_invariant:
  assumes wf: "wf_db d"
    and P: "\<forall>m \<in> set (storedMemories d). P m"
    and new: "\<And>m0. accessCount m0 = 0 \<Longrightarrow> relevanceScore m0 = Num 1 \<Longrightarrow> content m0 = None \<Longrightarrow> P m0"
  shows "wf_db (run e ops d) \<and> (\<forall>m \<in> set (storedMemories (run e ops d)). P m)"
  using wf P
proof (induction ops arbitrary: d)
  case Nil
  then show ?case by (simp add: run_def)
next
  case (Cons op ops)
  have "wf_db (perform e op d) \<and> (\<forall>m \<in> set (storedMemories (perform e op d)). P m)"
    by (rule perform_invariant [OF Cons.prems]) (rule new)
  then show ?case
    using Cons.IH [of "perform e op d"] by (simp add: run_def)
qed

lemma emptyStore_wf: "wf_db (emptyStore us)"
  by (simp add: wf_db_def emptyStore_def)

lemma emptyStore_stored: "storedMemories (emptyStore us) = []"
  by (simp add: emptyStore_def storedMemories_def map_values_def)

lemma run_wf: "wf_db (run e ops (emptyStore us))"
  using run_invariant [of "emptyStore us" "\<lambda>m. True" e ops]
  by (simp add: emptyStore_wf)

lemma run_fresh:
  "\<forall>m \<in> set (storedMemories (run e ops (emptyStore us))).
     relevanceScore m = Num 1 \<and> accessCount m = 0 \<and> content m = None"
  using run_invariant [of "emptyStore us"
      "\<lambda>m. relevanceScore m = Num 1 \<and> accessCount m = 0 \<and> content m = None" e ops]
  by (simp add: emptyStore_wf emptyStore_stored)

text \<open>
  So the text a search matches the keywords against never holds the plaintext of a memory:
  it is the word \<^verbatim>\<open>undefined\<close> followed by the tags.
\<close>

lemma stored_memoryText:
  "content m = None \<Longrightarrow> memoryText_of m = toLowerCase (''undefined '' @ join '' '' (tags m))"
  by (simp add: memoryText_of_def)

lemma run_memoryText:
  "\<forall>m \<in> set (storedMemories (run e ops (emptyStore us))).
     memoryText_of m = toLowerCase (''undefined '' @ join '' '' (tags m))"
  using run_fresh [of e ops us] by (simp add: stored_memoryText)

section \<open>The records a search returns\<close>

text \<open>
  On a well-formed store the results of a search are the selected copies whose decryption
  succeeds; a selected copy is a stored record of the requesting user with its score
  recomputed, and the score is above one half. A well-formed store holds at most one record
  under an identifier.
\<close>

lemma compact_set: "x \<in> set (compact xs) \<longleftrightarrow> Some x \<in> set xs"
  by (induction xs rule: compact.induct) auto

lemma compact_attempt_ids:
  "map r_id (compact (map (attempt dec key) ms))
   = map id_m (filter (\<lambda>m. dec (encryptedContent m) key \<noteq> None) ms)"
  by (induction ms) (auto simp: attempt_def toResult_def)

lemma searchResults_eq:
  assumes "wf_db d" "s_query body \<noteq> []" "findUser d uid = Some user0"
  shows "searchResults e now uid body d
         = compact (map (attempt (decryptData e) (privateKey user0)) (selectedRecords now uid body d))"
  using search_fst [OF assms] by (simp add: searchResults_def)

lemma searchResults_refused:
  "s_query body = [] \<or> findUser d uid = None \<Longrightarrow> searchResults e now uid body d = []"
  by (auto simp: searchResults_def search_def Let_def)

lemma scoredRecords_eq:
  "scoredRecords now uid body d
   = map (\<lambda>m. m\<lparr>relevanceScore := calculateRelevanceScore now m (requestContext body)\<rparr>)
       (filter (\<lambda>m. userId m = uid) (storedMemories d))"
  using ownedRefs_deref [of d uid, symmetric] by (simp add: scoredRecords_def o_def)

lemma selectedRecords_items:
  assumes "m' \<in> set (selectedRecords now uid body d)"
  shows "num_gt (relevanceScore m') (Num (1 / 2))
         \<and> (\<exists>m \<in> set (storedMemories d). userId m = uid
               \<and> m' = m\<lparr>relevanceScore := calculateRelevanceScore now m (requestContext body)\<rparr>)"
proof -
  have "m' \<in> set (filter (\<lambda>m. num_gt (relevanceScore m) (Num (1 / 2))) (scoredRecords now uid body d))"
    using assms set_slice [of 0 "orDefault 20 (s_limit body)"]
    unfolding selectedRecords_def by (fastforce simp: set_sort_cmp)
  then show ?thesis
    by (auto simp: scoredRecords_eq)
qed

lemma searchResults_items:
  assumes wf: "wf_db d" and x: "x \<in> set (searchResults e now uid body d)"
  shows "\<exists>m' \<in> set (selectedRecords now uid body d). x = toResult m' (r_content x)"
proof (cases "s_query body = [] \<or> findUser d uid = None")
  case True
  then show ?thesis using x searchResults_refused [of body d uid e now] by simp
next
  case False
  then obtain user0 where u: "findUser d uid = Some user0" and q: "s_query body \<noteq> []"
    by auto
  from x obtain m' where "m' \<in> set (selectedRecords now uid body d)"
    and "attempt (decryptData e) (privateKey user0) m' = Some x"
    unfolding searchResults_eq [OF wf q u] compact_set by auto
  then show ?thesis
    by (auto simp: attempt_def toResult_def)
qed

lemma stored_unique:
  assumes wf: "wf_db d"
    and m: "m \<in> set (storedMemories d)" and m': "m' \<in> set (storedMemories d)"
    and eq: "id_m m = id_m m'"
  shows "m = m'"
proof -
  from m obtain k r where kr: "(k, r) \<in> set (memories d)" "m = heap d ! r"
    by (auto simp: storedMemories_def map_values_def)
  from m' obtain k' r' where kr': "(k', r') \<in> set (memories d)" "m' = heap d ! r'"
    by (auto simp: storedMemories_def map_values_def)
  have "id_m m = k" "id_m m' = k'"
    using wf kr kr' by (auto simp: wf_db_def)
  with eq have "k = k'" by simp
  moreover have "distinct (map fst (memories d))"
    using wf by (simp add: wf_db_def)
  ultimately have "r = r'"
    using kr(1) kr'(1) by (metis eq_key_imp_eq_value)
  then show ?thesis using kr(2) kr'(2) by simp
qed

text \<open>
  Claim C5 (search threshold): for every user, query, context and limit, every result of a
  search carries the score freshly computed for a stored record of the requesting user, and
  that score is strictly greater than 0.5; a stored record whose freshly computed score is
  not greater than 0.5 (at most 0.5, or \<^verbatim>\<open>NaN\<close>) is in no search result.
\<close>

theorem search_threshold:
  assumes wf: "wf_db d"
  shows "(\<forall>x \<in> set (searchResults e now uid body d).
            num_gt (r_relevanceScore x) (Num (1 / 2))
            \<and> (\<exists>m \<in> set (storedMemories d). userId m = uid \<and> r_id x = id_m m
                  \<and> r_relevanceScore x = calculateRelevanceScore now m (requestContext body)))
         \<and> (\<forall>m \<in> set (storedMemories d).
              \<not> num_gt (calculateRelevanceScore now m (requestContext body)) (Num (1 / 2))
              \<longrightarrow> id_m m \<notin> r_id ` set (searchResults e now uid body d))"
proof -
  have first: "num_gt (r_relevanceScore x) (Num (1 / 2))
            \<and> (\<exists>m \<in> set (storedMemories d). userId m = uid \<and> r_id x = id_m m
                  \<and> r_relevanceScore x = calculateRelevanceScore now m (requestContext body))"
    if "x \<in> set (searchResults e now uid body d)" for x
  proof -
    from searchResults_items [OF wf that] obtain m'
      where sel: "m' \<in> set (selectedRecords now uid body d)" and x: "x = toResult m' (r_content x)"
      by blast
    from selectedRecords_items [OF sel] obtain m
      where "num_gt (relevanceScore m') (Num (1 / 2))" "m \<in> set (storedMemories d)" "userId m = uid"
        "m' = m\<lparr>relevanceScore := calculateRelevanceScore now m (requestContext body)\<rparr>"
      by blast
    moreover have "r_relevanceScore x = relevanceScore m'" "r_id x = id_m m'"
      by (subst x, simp add: toResult_def)+
    ultimately show ?thesis by auto
  qed
  have second: "id_m m \<notin> r_id ` set (searchResults e now uid body d)"
    if m: "m \<in> set (storedMemories d)"
      and low: "\<not> num_gt (calculateRelevanceScore now m (requestContext body)) (Num (1 / 2))" for m
  proof
    assume "id_m m \<in> r_id ` set (searchResults e now uid body d)"
    then obtain x where x: "x \<in> set (searchResults e now uid body d)" "r_id x = id_m m"
      by auto
    from first [OF x(1)] obtain m0 where m0: "m0 \<in> set (storedMemories d)" "r_id x = id_m m0"
      "r_relevanceScore x = calculateRelevanceScore now m0 (requestContext body)"
      and gt: "num_gt (r_relevanceScore x) (Num (1 / 2))"
      by blast
    have "m = m0"
      using stored_unique [OF wf m m0(1)] x(2) m0(2) by simp
    with low gt m0(3) show False by simp
  qed
  from first second show ?thesis by blast
qed

text \<open>
  Claim C1 (per-user isolation): every record the list handler and the search handler
  return is a stored record whose \<^verbatim>\<open>userId\<close> is the requesting user's, for every filter
  combination, query and context; so a record owned by another user appears in neither.
\<close>

theorem isolation:
  assumes wf: "wf_db d"
  shows "(\<forall>s \<in> set (memories_l (listMemories uid q d)).
            \<exists>m \<in> set (storedMemories d). userId m = uid \<and> s = toSummary m)
         \<and> (\<forall>x \<in> set (searchResults e now uid body d).
              \<exists>m \<in> set (storedMemories d). userId m = uid
                \<and> x = toResult (m\<lparr>relevanceScore := calculateRelevanceScore now m (requestContext body)\<rparr>)
                        (r_content x))
         \<and> (\<forall>m \<in> set (storedMemories d). userId m \<noteq> uid \<longrightarrow>
              id_m m \<notin> l_id ` set (memories_l (listMemories uid q d))
              \<and> id_m m \<notin> r_id ` set (searchResults e now uid body d))"
proof -
  have listed: "\<exists>m \<in> set (storedMemories d). userId m = uid \<and> s = toSummary m"
    if "s \<in> set (memories_l (listMemories uid q d))" for s
    using that listMemories_items [of uid q d] by auto
  have found: "\<exists>m \<in> set (storedMemories d). userId m = uid
                \<and> x = toResult (m\<lparr>relevanceScore := calculateRelevanceScore now m (requestContext body)\<rparr>)
                        (r_content x)"
    if "x \<in> set (searchResults e now uid body d)" for x
  proof -
    from searchResults_items [OF wf that] obtain m'
      where sel: "m' \<in> set (selectedRecords now uid body d)" and x: "x = toResult m' (r_content x)"
      by blast
    from selectedRecords_items [OF sel] x show ?thesis by auto
  qed
  have other: "id_m m \<notin> l_id ` set (memories_l (listMemories uid q d))
              \<and> id_m m \<notin> r_id ` set (searchResults e now uid body d)"
    if m: "m \<in> set (storedMemories d)" and foreign: "userId m \<noteq> uid" for m
  proof (intro conjI notI)
    assume "id_m m \<in> l_id ` set (memories_l (listMemories uid q d))"
    then obtain s where s: "s \<in> set (memories_l (listMemories uid q d))" "l_id s = id_m m"
      by auto
    from listed [OF s(1)] obtain m0
      where m0: "m0 \<in> set (storedMemories d)" "userId m0 = uid" and sm: "s = toSummary m0"
      by blast
    have "l_id s = id_m m0"
      by (subst sm) (simp add: toSummary_def)
    with s(2) have "id_m m0 = id_m m" by simp
    note m0 = m0 this
    have "m = m0" using stored_unique [OF wf m m0(1)] m0(3) by simp
    with foreign m0(2) show False by simp
  next
    assume "id_m m \<in> r_id ` set (searchResults e now uid body d)"
    then obtain x where x: "x \<in> set (searchResults e now uid body d)" "r_id x = id_m m"
      by auto
    from found [OF x(1)] obtain m0 where m0: "m0 \<in> set (storedMemories d)" "userId m0 = uid"
      and xm: "x = toResult (m0\<lparr>relevanceScore := calculateRelevanceScore now m0 (requestContext body)\<rparr>)
                        (r_content x)"
      by blast
    have "r_id x = id_m m0"
      by (subst xm) (simp add: toResult_def)
    then have "m = m0" using stored_unique [OF wf m m0(1)] x(2) by simp
    with foreign m0(2) show False by simp
  qed
  from listed found other show ?thesis by blast
qed

text \<open>
  Claim C7 (per-record decryption failure tolerance): a search by a registered user with a
  non-empty query answers with a result list whatever the decryption of single records
  does, never with an error; the results are exactly the selected records whose decryption
  succeeds, in the order of selection, so a record whose decryption fails is left out and
  the others stay; and the stored records, the memory table and the users are as before.
\<close>

theorem decryption_failure_tolerated:
  assumes wf: "wf_db d" and q: "s_query body \<noteq> []" and u: "findUser d uid = Some user0"
  shows "(\<exists>resp. fst (search e now uid body d) = Inr resp
            \<and> results resp = searchResults e now uid body d
            \<and> totalFound resp = length (searchResults e now uid body d))
         \<and> searchResults e now uid body d
             = compact (map (attempt (decryptData e) (privateKey user0))
                         (selectedRecords now uid body d))
         \<and> map r_id (searchResults e now uid body d)
             = map id_m (filter (\<lambda>m. decryptData e (encryptedContent m) (privateKey user0) \<noteq> None)
                          (selectedRecords now uid body d))
         \<and> storedMemories (snd (search e now uid body d)) = storedMemories d
         \<and> memories (snd (search e now uid body d)) = memories d
         \<and> users (snd (search e now uid body d)) = users d"
  using search_fst [OF wf q u, of e now] searchResults_eq [OF wf q u, of e now]
    search_storedMemories [OF wf, of e now uid body]
  by (simp add: searchResults_def compact_attempt_ids search_memories search_users)

section \<open>Fields that no request updates\<close>

text \<open>
  Claim C10 (the listed relevance score): after any sequence of create, list and search
  requests, by any users and with any outcome, every record the list handler reports has
  \<^verbatim>\<open>relevanceScore\<close> 1, the constant of creation: a search scores copies.
\<close>

theorem listed_relevanceScore_constant:
  "\<forall>s \<in> set (memories_l (listMemories uid q (run e ops (emptyStore us)))).
     l_relevanceScore s = Num 1"
  using listMemories_items [of uid q "run e ops (emptyStore us)"] run_fresh [of e ops us]
  by (auto simp: toSummary_def)

section \<open>The claims on the sample vault\<close>

text \<open>
  The sample store is the one the sample requests lead to, so it is well-formed. One second
  after the last note, Alice's search for \<^verbatim>\<open>budget\<close> returns her three notes: the two
  tagged \<^verbatim>\<open>budget\<close> first, then the birthday note, whose recency alone is above the
  threshold. Five days later her search for \<^verbatim>\<open>family\<close> returns the birthday note only.
\<close>

lemmas sample_defs =
  sampleStore_def sampleMemory_def budgetQuery_def familyQuery_def
  storedMemories_def map_values_def
  requestContext_def searchContext_def toLowerCase_def toLowerCase_char_def
  calculateRelevanceScore_def contextTerm_def num_div_counts_def memoryText_of_def
  selectedRecords_def scoredRecords_eq sort_cmp_def byScoreDescV_def slice_def
  attempt_def toResult_def toyEnv_def brokenEnv_def aliceStored_def alice_def

lemma sampleStore_run: "run toyEnv sampleOps (emptyStore sampleUsers) = sampleStore"
  by code_simp

lemma sample_wf: "wf_db sampleStore"
  using run_wf [of toyEnv sampleOps sampleUsers] by (simp add: sampleStore_run)

lemma sample_user: "findUser sampleStore ''u1'' = Some aliceStored"
  by code_simp

lemma sample_query: "s_query budgetQuery \<noteq> []" "s_query familyQuery \<noteq> []"
  by (simp_all add: budgetQuery_def familyQuery_def)

lemma sample_results:
  "map r_id (searchResults toyEnv 86402000 ''u1'' budgetQuery sampleStore) = [''m4'', ''m1'', ''m2'']"
  unfolding searchResults_eq [OF sample_wf sample_query(1) sample_user]
  by (simp add: sample_defs)

lemma sample_broken_results:
  "map r_id (searchResults brokenEnv 86402000 ''u1'' budgetQuery sampleStore) = [''m4'', ''m1'']"
  unfolding searchResults_eq [OF sample_wf sample_query(1) sample_user]
  by (simp add: sample_defs)

lemma sample_family_results:
  "map r_id (searchResults toyEnv 518401000 ''u1'' familyQuery sampleStore) = [''m2'']"
  unfolding searchResults_eq [OF sample_wf sample_query(2) sample_user]
  by (simp add: sample_defs)

lemma sample_family_scores:
  "map (\<lambda>m. calculateRelevanceScore 518401000 m (requestContext familyQuery))
     (storedMemories sampleStore) = [Num (2 / 5), Num (11 / 2), Num (1 / 2), Num (1 / 2)]"
  by (simp add: sample_defs)

lemma sample_ids: "map id_m (storedMemories sampleStore) = [''m1'', ''m2'', ''m3'', ''m4'']"
  by (simp add: sample_defs)

lemma sample_owners: "map userId (storedMemories sampleStore) = [''u1'', ''u1'', ''u2'', ''u1'']"
  by (simp add: sample_defs)

lemma listMemories_stored:
  assumes "storedMemories d' = storedMemories d"
  shows "listMemories uid q d' = listMemories uid q d"
  using assms by (simp add: listMemories_def filteredMemories_eq)


lemma sample_selected:
  "map id_m (selectedRecords 86402000 ''u1'' budgetQuery sampleStore) = [''m4'', ''m1'', ''m2'']"
  by (simp add: sample_defs)

lemma sample_listed_counts:
  "map l_accessCount (memories_l (listMemories ''u1'' noFilter sampleStore)) = [0, 0, 0]"
  by code_simp

lemma sample_bob_note:
  "storedMemories sampleStore ! 2 \<in> set (storedMemories sampleStore)"
  "userId (storedMemories sampleStore ! 2) = ''u2''"
  "id_m (storedMemories sampleStore ! 2) = ''m3''"
  by (simp_all add: sample_defs)

lemma sample_old_note:
  "storedMemories sampleStore ! 3 \<in> set (storedMemories sampleStore)"
  "id_m (storedMemories sampleStore ! 3) = ''m4''"
  "calculateRelevanceScore 518401000 (storedMemories sampleStore ! 3) (requestContext familyQuery)
   = Num (1 / 2)"
  by (simp_all add: sample_defs)

text \<open>
  Claim C1 on the sample vault: Bob's note \<^verbatim>\<open>m3\<close> carries the tag Alice searches for and
  is in neither her listing nor her search results.
\<close>

theorem isolation_witness:
  "wf_db sampleStore
   \<and> map userId (storedMemories sampleStore) = [''u1'', ''u1'', ''u2'', ''u1'']
   \<and> map id_m (storedMemories sampleStore) = [''m1'', ''m2'', ''m3'', ''m4'']
   \<and> map l_id (memories_l (listMemories ''u1'' noFilter sampleStore)) = [''m2'', ''m4'', ''m1'']
   \<and> map r_id (searchResults toyEnv 86402000 ''u1'' budgetQuery sampleStore)
       = [''m4'', ''m1'', ''m2'']
   \<and> ''m3'' \<notin> l_id ` set (memories_l (listMemories ''u1'' noFilter sampleStore))
   \<and> ''m3'' \<notin> r_id ` set (searchResults toyEnv 86402000 ''u1'' budgetQuery sampleStore)"
proof -
  have "\<forall>m \<in> set (storedMemories sampleStore). userId m \<noteq> ''u1'' \<longrightarrow>
          id_m m \<notin> l_id ` set (memories_l (listMemories ''u1'' noFilter sampleStore))
          \<and> id_m m \<notin> r_id ` set (searchResults toyEnv 86402000 ''u1'' budgetQuery sampleStore)"
    using isolation [OF sample_wf, of "''u1''" noFilter toyEnv 86402000 budgetQuery] by blast
  from bspec [OF this sample_bob_note(1)] sample_bob_note(2,3)
  have "''m3'' \<notin> l_id ` set (memories_l (listMemories ''u1'' noFilter sampleStore))
        \<and> ''m3'' \<notin> r_id ` set (searchResults toyEnv 86402000 ''u1'' budgetQuery sampleStore)"
    by simp
  then show ?thesis
    using sample_wf sample_owners sample_ids sample_listed sample_results by blast
qed

text \<open>
  Claim C5 on the sample vault: five days after it was stored, the note \<^verbatim>\<open>m4\<close> scores
  exactly one half against the query \<^verbatim>\<open>family\<close> and is not returned.
\<close>

theorem search_threshold_witness:
  "wf_db sampleStore
   \<and> map (\<lambda>m. calculateRelevanceScore 518401000 m (requestContext familyQuery))
        (storedMemories sampleStore) = [Num (2 / 5), Num (11 / 2), Num (1 / 2), Num (1 / 2)]
   \<and> map r_id (searchResults toyEnv 518401000 ''u1'' familyQuery sampleStore) = [''m2'']
   \<and> ''m4'' \<notin> r_id ` set (searchResults toyEnv 518401000 ''u1'' familyQuery sampleStore)"
proof -
  have "\<forall>m \<in> set (storedMemories sampleStore).
          \<not> num_gt (calculateRelevanceScore 518401000 m (requestContext familyQuery)) (Num (1 / 2))
          \<longrightarrow> id_m m \<notin> r_id ` set (searchResults toyEnv 518401000 ''u1'' familyQuery sampleStore)"
    using search_threshold [OF sample_wf, of toyEnv 518401000 "''u1''" familyQuery] by blast
  from bspec [OF this sample_old_note(1)] sample_old_note(2,3)
  have "''m4'' \<notin> r_id ` set (searchResults toyEnv 518401000 ''u1'' familyQuery sampleStore)"
    by simp
  then show ?thesis
    using sample_wf sample_family_scores sample_family_results by blast
qed

text \<open>
  Claim C7 on the sample vault: with the blob of the birthday note undecryptable, the search
  that selects all three of Alice's notes answers with the other two.
\<close>

theorem decryption_failure_tolerated_witness:
  "wf_db sampleStore \<and> s_query budgetQuery \<noteq> []
   \<and> findUser sampleStore ''u1'' = Some aliceStored
   \<and> decryptData brokenEnv ''1:Birthday reminder'' (privateKey aliceStored) = None
   \<and> map id_m (selectedRecords 86402000 ''u1'' budgetQuery sampleStore) = [''m4'', ''m1'', ''m2'']
   \<and> map r_id (searchResults brokenEnv 86402000 ''u1'' budgetQuery sampleStore) = [''m4'', ''m1'']
   \<and> (\<exists>resp. fst (search brokenEnv 86402000 ''u1'' budgetQuery sampleStore) = Inr resp
          \<and> map r_id (results resp) = [''m4'', ''m1''] \<and> totalFound resp = 2)
   \<and> storedMemories (snd (search brokenEnv 86402000 ''u1'' budgetQuery sampleStore))
       = storedMemories sampleStore"
proof -
  have fails: "decryptData brokenEnv ''1:Birthday reminder'' (privateKey aliceStored) = None"
    by (simp add: brokenEnv_def)
  have len: "length (searchResults brokenEnv 86402000 ''u1'' budgetQuery sampleStore) = 2"
    using arg_cong [OF sample_broken_results, of length] by simp
  note tolerated = decryption_failure_tolerated [OF sample_wf sample_query(1) sample_user,
        of brokenEnv 86402000]
  from tolerated obtain resp
    where "fst (search brokenEnv 86402000 ''u1'' budgetQuery sampleStore) = Inr resp"
      and "results resp = searchResults brokenEnv 86402000 ''u1'' budgetQuery sampleStore"
      and "totalFound resp = length (searchResults brokenEnv 86402000 ''u1'' budgetQuery sampleStore)"
    by blast
  then have answered:
    "\<exists>resp. fst (search brokenEnv 86402000 ''u1'' budgetQuery sampleStore) = Inr resp
          \<and> map r_id (results resp) = [''m4'', ''m1''] \<and> totalFound resp = 2"
    using sample_broken_results len by (intro exI [of _ resp]) simp
  from tolerated have kept:
    "storedMemories (snd (search brokenEnv 86402000 ''u1'' budgetQuery sampleStore))
     = storedMemories sampleStore"
    by blast
  from sample_wf sample_query(1) sample_user fails sample_selected sample_broken_results
    answered kept
  show ?thesis by blast
qed

lemma run_snoc: "run e (ops @ [op]) d = perform e op (run e ops d)"
  by (simp add: run_def)

text \<open>
  Claim C10 on the sample vault: after the sample requests and a search that scores Alice's
  notes near 6 and 1, her listing still reports the score 1 for each.
\<close>

theorem listed_relevanceScore_constant_witness:
  "map l_id (memories_l (listMemories ''u1'' noFilter
       (run toyEnv (sampleOps @ [Search 86402000 ''u1'' budgetQuery]) (emptyStore sampleUsers))))
     = [''m2'', ''m4'', ''m1'']
   \<and> list_all (\<lambda>s. l_relevanceScore s = Num 1)
       (memories_l (listMemories ''u1'' noFilter
          (run toyEnv (sampleOps @ [Search 86402000 ''u1'' budgetQuery]) (emptyStore sampleUsers))))"
proof -
  have reached:
    "run toyEnv (sampleOps @ [Search 86402000 ''u1'' budgetQuery]) (emptyStore sampleUsers)
     = snd (search toyEnv 86402000 ''u1'' budgetQuery sampleStore)"
    by (simp add: run_snoc sampleStore_run)
  have "listMemories ''u1'' noFilter
          (run toyEnv (sampleOps @ [Search 86402000 ''u1'' budgetQuery]) (emptyStore sampleUsers))
        = listMemories ''u1'' noFilter sampleStore"
    unfolding reached
    by (rule listMemories_stored) (rule search_storedMemories [OF sample_wf])
  then show ?thesis
    using listed_relevanceScore_constant [of "''u1''" noFilter toyEnv
        "sampleOps @ [Search 86402000 ''u1'' budgetQuery]" sampleUsers]
      sample_listed
    by (simp add: list_all_iff)
qed

text \<open>
  Claim C2 (access counting): a memory starts with access count 0 (\<open>createMemory_store\<close>)
  and the list handler writes nothing, as claimed; a search that returns a memory is claimed
  to raise its stored count by one. The handler raises \<^verbatim>\<open>accessCount\<close> on the copy it
  made for scoring, not on the stored object: Alice's search returns her three notes, and
  the listing after the search reports the access count 0 for each, as the listing before.
  In every store reached by requests all stored access counts are 0 (\<open>run_fresh\<close>).
\<close>

theorem search_keeps_stored_accessCount:
  "map r_id (searchResults toyEnv 86402000 ''u1'' budgetQuery sampleStore) = [''m4'', ''m1'', ''m2'']
   \<and> map l_accessCount (memories_l (listMemories ''u1'' noFilter sampleStore)) = [0, 0, 0]
   \<and> map l_accessCount (memories_l (listMemories ''u1'' noFilter
         (snd (search toyEnv 86402000 ''u1'' budgetQuery sampleStore)))) = [0, 0, 0]"
  using sample_results sample_listed_counts
    listMemories_stored [OF search_storedMemories [OF sample_wf, of toyEnv 86402000 "''u1''" budgetQuery]]
  by simp

end
